theory Spec2Isabelle
  imports Main
begin

section \<open>The property graph\<close>

text \<open>
  The program under study (\<^verbatim>\<open>app/crud/neo4j_crud.py\<close>) is a collection of static methods,
  each of which runs one Cypher statement (\<^verbatim>\<open>create_conversation\<close> and \<^verbatim>\<open>join_clan\<close> run
  more than one) against a labelled
  property graph and turns the first record, or all records, into Python dictionaries.
  The graph is modelled as the statements see it: every node carries exactly one of the five
  labels that the \<^verbatim>\<open>CREATE\<close> clauses of the file use, with the properties those clauses set,
  so there is one table of nodes per label; a relationship is a directed edge between two
  node identities with a type and the properties of that type.

  Node identities are the store's own (a counter), not the \<^verbatim>\<open>player_id\<close> property: nothing
  in the source makes \<^verbatim>\<open>player_id\<close> unique (nodes are made with \<^verbatim>\<open>CREATE\<close>, never
  \<^verbatim>\<open>MERGE\<close>), so a \<^verbatim>\<open>MATCH (p:Player {player_id: $x})\<close> may bind several nodes, and the
  clauses after it run once per bound row.

  \<^verbatim>\<open>datetime()\<close> is the time of the statement, the same at every occurrence within one
  statement; it is the parameter \<open>now\<close> of each operation. Identifiers produced by
  \<^verbatim>\<open>generate_id()\<close> are parameters as well. The order in which a \<^verbatim>\<open>MATCH\<close> enumerates its
  rows is not fixed by Cypher; the model enumerates nodes and edges in creation order.
\<close>

type_synonym time = nat
type_synonym node_id = nat

record player =
  player_id :: string
  username :: string
  status :: string
  player_created_at :: time

record conversation =
  conversation_id :: string
  conversation_type :: string
  conversation_name :: "string option"
  conversation_created_at :: time
  last_message_at :: "time option"

record message =
  message_id :: string
  content :: string
  timestamp :: time
  edited :: bool
  edited_at :: "time option"

record party =
  party_id :: string
  game_id :: string
  max_size :: int
  is_public :: bool
  party_created_at :: time

record clan =
  clan_id :: string
  clan_name :: string
  tag :: string
  description :: "string option"
  clan_created_at :: time

datatype relationship =
    is_SENT_REQUEST: SENT_REQUEST (sent_at: time) (request_message: string)
  | is_FRIENDS_WITH: FRIENDS_WITH (since: time) (nickname: "string option")
  | is_BLOCKED: BLOCKED (since: time) (reason: "string option")
  | is_FOLLOWS: FOLLOWS (since: time)
  | is_MEMBER_OF: MEMBER_OF (joined_at: time) (role: string) (muted: bool)
  | is_SENT: SENT
  | is_CONTAINS: CONTAINS
  | is_IN_PARTY: IN_PARTY (joined_at: time) (role: string)
  | is_INVITED_TO: INVITED_TO (invited_by: string) (invited_at: time)
  | is_BELONGS_TO: BELONGS_TO (joined_at: time) (role: string) (rank: int)

datatype edge = Edge (src: node_id) (dst: node_id) (rel: relationship)

record graph =
  players :: "(node_id \<times> player) list"
  conversations :: "(node_id \<times> conversation) list"
  messages :: "(node_id \<times> message) list"
  parties :: "(node_id \<times> party) list"
  clans :: "(node_id \<times> clan) list"
  edges :: "edge list"
  next_id :: node_id

definition empty_graph :: graph where
  "empty_graph = \<lparr>players = [], conversations = [], messages = [], parties = [],
     clans = [], edges = [], next_id = 0\<rparr>"

subsection \<open>Pattern matching\<close>

text \<open>\<^verbatim>\<open>MATCH (p:Player {player_id: $player_id})\<close>: every player node with that property.\<close>

definition match_player :: "graph \<Rightarrow> string \<Rightarrow> (node_id \<times> player) list" where
  "match_player g pid = filter (\<lambda>n. player_id (snd n) = pid) (players g)"

text \<open>The \<^verbatim>\<open>:Player\<close> node at one end of an edge that is already bound.\<close>

definition player_at :: "graph \<Rightarrow> node_id \<Rightarrow> (node_id \<times> player) list" where
  "player_at g i = filter (\<lambda>n. fst n = i) (players g)"

text \<open>
  \<^verbatim>\<open>result.single()\<close> of the driver gives the first record, or \<^verbatim>\<open>None\<close> when there is
  none (with more than one record it warns and still gives the first).
\<close>

fun single :: "'a list \<Rightarrow> 'a option" where
  "single [] = None"
| "single (r # _) = Some r"

definition match_conversation :: "graph \<Rightarrow> string \<Rightarrow> (node_id \<times> conversation) list" where
  "match_conversation g cid = filter (\<lambda>n. conversation_id (snd n) = cid) (conversations g)"

definition conversation_at :: "graph \<Rightarrow> node_id \<Rightarrow> (node_id \<times> conversation) list" where
  "conversation_at g i = filter (\<lambda>n. fst n = i) (conversations g)"

definition match_message :: "graph \<Rightarrow> string \<Rightarrow> (node_id \<times> message) list" where
  "match_message g mid = filter (\<lambda>n. message_id (snd n) = mid) (messages g)"

definition match_party :: "graph \<Rightarrow> string \<Rightarrow> (node_id \<times> party) list" where
  "match_party g pid = filter (\<lambda>n. party_id (snd n) = pid) (parties g)"

definition party_at :: "graph \<Rightarrow> node_id \<Rightarrow> (node_id \<times> party) list" where
  "party_at g i = filter (\<lambda>n. fst n = i) (parties g)"

definition match_clan :: "graph \<Rightarrow> string \<Rightarrow> (node_id \<times> clan) list" where
  "match_clan g cid = filter (\<lambda>n. clan_id (snd n) = cid) (clans g)"

definition clan_at :: "graph \<Rightarrow> node_id \<Rightarrow> (node_id \<times> clan) list" where
  "clan_at g i = filter (\<lambda>n. fst n = i) (clans g)"

text \<open>
  \<^verbatim>\<open>OPTIONAL MATCH\<close>: the rows of the pattern, or one row binding \<^verbatim>\<open>null\<close> when the pattern
  has none.
\<close>

definition optional :: "'a list \<Rightarrow> 'a option list" where
  "optional xs = (if xs = [] then [None] else map Some xs)"

text \<open>\<^verbatim>\<open>DELETE r\<close> over all rows: every edge bound to \<open>r\<close> in some row goes.\<close>

definition delete_edges :: "edge list \<Rightarrow> edge list \<Rightarrow> edge list" where
  "delete_edges bound es = filter (\<lambda>e. e \<notin> set bound) es"

text \<open>A pattern predicate such as \<^verbatim>\<open>(p)-[:BLOCKED]->(suggestion)\<close> in a \<^verbatim>\<open>WHERE\<close>.\<close>

definition has_edge :: "graph \<Rightarrow> node_id \<Rightarrow> (relationship \<Rightarrow> bool) \<Rightarrow> node_id \<Rightarrow> bool" where
  "has_edge g a P b = (\<exists>e \<in> set (edges g). src e = a \<and> dst e = b \<and> P (rel e))"

text \<open>The property \<^verbatim>\<open>player_id\<close> names at most one node (the data model's identity rule).\<close>

definition unique_player_ids :: "graph \<Rightarrow> bool" where
  "unique_player_ids g = distinct (map (\<lambda>n. player_id (snd n)) (players g))"

section \<open>PlayerNodesCRUD\<close>

record player_row =
  pr_player_id :: string
  pr_username :: string
  pr_status :: string

definition create_player_node ::
  "graph \<Rightarrow> string \<Rightarrow> string \<Rightarrow> string \<Rightarrow> time \<Rightarrow> player_row option \<times> graph" where
  "create_player_node g pid uname st now =
     (Some \<lparr>pr_player_id = pid, pr_username = uname, pr_status = st\<rparr>,
      g\<lparr>players := players g @
           [(next_id g, \<lparr>player_id = pid, username = uname, status = st,
                         player_created_at = now\<rparr>)],
        next_id := Suc (next_id g)\<rparr>)"

section \<open>FriendshipsCRUD\<close>

record request_row =
  from_player_id :: string
  from_username :: string
  to_player_id :: string
  to_username :: string
  rq_message :: string
  rq_sent_at :: time

definition request_record ::
  "(node_id \<times> player) \<Rightarrow> (node_id \<times> player) \<Rightarrow> relationship \<Rightarrow> request_row" where
  "request_record from to r =
     \<lparr>from_player_id = player_id (snd from), from_username = username (snd from),
      to_player_id = player_id (snd to), to_username = username (snd to),
      rq_message = request_message r, rq_sent_at = sent_at r\<rparr>"

definition send_friend_request ::
  "graph \<Rightarrow> string \<Rightarrow> string \<Rightarrow> string \<Rightarrow> time \<Rightarrow> request_row option \<times> graph" where
  "send_friend_request g from_id to_id msg now =
     (let rows = [(from, to).
                    from \<leftarrow> match_player g from_id,
                    to \<leftarrow> match_player g to_id]
      in (single (map (\<lambda>(from, to). request_record from to (SENT_REQUEST now msg)) rows),
          g\<lparr>edges := edges g @
               map (\<lambda>(from, to). Edge (fst from) (fst to) (SENT_REQUEST now msg)) rows\<rparr>))"

record friendship_row =
  player1_id :: string
  player2_id :: string
  fs_since :: time

definition accept_friend_request ::
  "graph \<Rightarrow> string \<Rightarrow> string \<Rightarrow> time \<Rightarrow> friendship_row option \<times> graph" where
  "accept_friend_request g from_id to_id now =
     (let rows = [(from, r, to).
                    from \<leftarrow> match_player g from_id,
                    r \<leftarrow> edges g, src r = fst from \<and> is_SENT_REQUEST (rel r),
                    to \<leftarrow> match_player g to_id, dst r = fst to]
      in (single (map (\<lambda>(from, r, to).
                    \<lparr>player1_id = player_id (snd from), player2_id = player_id (snd to),
                     fs_since = now\<rparr>) rows),
          g\<lparr>edges := delete_edges (map (\<lambda>(from, r, to). r) rows) (edges g) @
               concat (map (\<lambda>(from, r, to).
                  [Edge (fst from) (fst to) (FRIENDS_WITH now None),
                   Edge (fst to) (fst from) (FRIENDS_WITH now None)]) rows)\<rparr>))"

definition get_pending_requests :: "graph \<Rightarrow> string \<Rightarrow> request_row list" where
  "get_pending_requests g pid =
     [request_record from to (rel r).
        to \<leftarrow> match_player g pid,
        r \<leftarrow> edges g, dst r = fst to \<and> is_SENT_REQUEST (rel r),
        from \<leftarrow> player_at g (src r)]"

record friend_row =
  fr_player_id :: string
  fr_username :: string
  fr_status :: string
  friends_since :: time
  fr_nickname :: "string option"

definition get_friends :: "graph \<Rightarrow> string \<Rightarrow> friend_row list" where
  "get_friends g pid =
     [\<lparr>fr_player_id = player_id (snd friend), fr_username = username (snd friend),
       fr_status = status (snd friend), friends_since = since (rel f),
       fr_nickname = nickname (rel f)\<rparr>.
        p \<leftarrow> match_player g pid,
        f \<leftarrow> edges g, src f = fst p \<and> is_FRIENDS_WITH (rel f),
        friend \<leftarrow> player_at g (dst f)]"

text \<open>
  The rows of the \<^verbatim>\<open>MATCH ... WHERE\<close> of \<^verbatim>\<open>get_friend_suggestions\<close>, before aggregation:
  one row per pair of \<^verbatim>\<open>FRIENDS_WITH\<close> edges player \<open>\<rightarrow>\<close> friend \<open>\<rightarrow>\<close> suggestion that passes the
  filter. (Cypher binds the two relationships of one pattern to different edges; they
  can only coincide on a self-loop at the player, whose end the last conjunct of the
  \<^verbatim>\<open>WHERE\<close> rejects anyway.)
\<close>

definition suggestion_paths ::
  "graph \<Rightarrow> string \<Rightarrow> ((node_id \<times> player) \<times> (node_id \<times> player)) list" where
  "suggestion_paths g pid =
     [(friend, suggestion).
        p \<leftarrow> match_player g pid,
        r1 \<leftarrow> edges g, src r1 = fst p \<and> is_FRIENDS_WITH (rel r1),
        friend \<leftarrow> player_at g (dst r1),
        r2 \<leftarrow> edges g, src r2 = fst friend \<and> is_FRIENDS_WITH (rel r2),
        suggestion \<leftarrow> player_at g (dst r2),
        \<not> has_edge g (fst p) is_FRIENDS_WITH (fst suggestion)
          \<and> \<not> has_edge g (fst p) is_BLOCKED (fst suggestion)
          \<and> player_id (snd suggestion) \<noteq> pid]"

record suggestion_row =
  sg_player_id :: string
  sg_username :: string
  sg_status :: string
  mutual_friends :: nat

text \<open>
  What \<^verbatim>\<open>session.run\<close> raises in the operations below. The driver packs an integer
  parameter as a signed 64-bit value and raises \<^verbatim>\<open>OverflowError\<close>, before anything is sent,
  for a Python integer outside that range; \<^verbatim>\<open>ClientError\<close> is the store rejecting the
  statement.
\<close>

datatype driver_error = OverflowError | ClientError string

definition int64 :: "int \<Rightarrow> bool" where
  "int64 n = (- (2 ^ 63) \<le> n \<and> n < 2 ^ 63)"

text \<open>
  \<^verbatim>\<open>RETURN ..., count(friend) AS mutual_friends\<close> groups the rows by the three returned
  properties of the suggestion and counts each group's rows; \<^verbatim>\<open>ORDER BY mutual_friends DESC\<close>
  is a sort on that count (here the stable insertion sort of the library, Cypher leaving
  the order among equal counts open); \<^verbatim>\<open>LIMIT\<close> keeps a prefix, and the store rejects a
  negative \<^verbatim>\<open>$limit\<close>.
\<close>

definition get_friend_suggestions ::
  "graph \<Rightarrow> string \<Rightarrow> int \<Rightarrow> driver_error + suggestion_row list" where
  "get_friend_suggestions g pid limit =
     (if \<not> int64 limit then Inl OverflowError
      else if limit < 0 then Inl (ClientError ''LIMIT: must be a non-negative integer'')
      else
        let keys = map (\<lambda>(friend, suggestion).
                      (player_id (snd suggestion), username (snd suggestion),
                       status (snd suggestion))) (suggestion_paths g pid);
            records = map (\<lambda>k. \<lparr>sg_player_id = fst k, sg_username = fst (snd k),
                                 sg_status = snd (snd k),
                                 mutual_friends = count_list keys k\<rparr>) (remdups keys)
        in Inr (take (nat limit) (sort_key (\<lambda>r. - int (mutual_friends r)) records)))"

section \<open>BlockingCRUD\<close>

record blocked_row =
  blocked_player_id :: string
  blocked_username :: string
  blocked_since :: time
  bl_reason :: "string option"

definition blocked_record :: "(node_id \<times> player) \<Rightarrow> relationship \<Rightarrow> blocked_row" where
  "blocked_record blocked b =
     \<lparr>blocked_player_id = player_id (snd blocked), blocked_username = username (snd blocked),
      blocked_since = since b, bl_reason = reason b\<rparr>"

text \<open>
  The undirected pattern \<^verbatim>\<open>(blocker)-[f:FRIENDS_WITH]-(blocked)\<close> binds \<open>f\<close> to the edges of
  either direction. \<^verbatim>\<open>DELETE f\<close> ignores the \<^verbatim>\<open>null\<close> of a row without friendship, and the
  \<^verbatim>\<open>CREATE\<close> after it runs once per row.
\<close>

definition friendship_edges :: "graph \<Rightarrow> node_id \<Rightarrow> node_id \<Rightarrow> edge list" where
  "friendship_edges g a b =
     filter (\<lambda>f. is_FRIENDS_WITH (rel f) \<and>
                  (src f = a \<and> dst f = b \<or> src f = b \<and> dst f = a)) (edges g)"

definition block_player ::
  "graph \<Rightarrow> string \<Rightarrow> string \<Rightarrow> string option \<Rightarrow> time \<Rightarrow> blocked_row option \<times> graph" where
  "block_player g blocker_id blocked_id rsn now =
     (let rows = [(blocker, blocked, f).
                    blocker \<leftarrow> match_player g blocker_id,
                    blocked \<leftarrow> match_player g blocked_id,
                    f \<leftarrow> optional (friendship_edges g (fst blocker) (fst blocked))]
      in (single (map (\<lambda>(blocker, blocked, f). blocked_record blocked (BLOCKED now rsn)) rows),
          g\<lparr>edges := delete_edges
                        (concat (map (\<lambda>(blocker, blocked, f). case f of None \<Rightarrow> [] | Some e \<Rightarrow> [e])
                           rows))
                        (edges g) @
               map (\<lambda>(blocker, blocked, f). Edge (fst blocker) (fst blocked) (BLOCKED now rsn))
                 rows\<rparr>))"

definition get_blocked_players :: "graph \<Rightarrow> string \<Rightarrow> blocked_row list" where
  "get_blocked_players g pid =
     [blocked_record blocked (rel b).
        p \<leftarrow> match_player g pid,
        b \<leftarrow> edges g, src b = fst p \<and> is_BLOCKED (rel b),
        blocked \<leftarrow> player_at g (dst b)]"

section \<open>MessagingCRUD\<close>

record conversation_row =
  cv_conversation_id :: string
  cv_conversation_type :: string
  cv_name :: "string option"
  cv_created_at :: time

text \<open>
  The loop of \<^verbatim>\<open>create_conversation\<close> runs one statement per participant; the statements of
  one call are taken to run at the same instant.
\<close>

definition add_participant :: "string \<Rightarrow> time \<Rightarrow> string \<Rightarrow> graph \<Rightarrow> graph" where
  "add_participant conv_id now pid g =
     g\<lparr>edges := edges g @
          [Edge (fst p) (fst c) (MEMBER_OF now ''member'' False).
             c \<leftarrow> match_conversation g conv_id,
             p \<leftarrow> match_player g pid]\<rparr>"

definition create_conversation ::
  "graph \<Rightarrow> string \<Rightarrow> string list \<Rightarrow> string option \<Rightarrow> string \<Rightarrow> time
     \<Rightarrow> conversation_row option \<times> graph" where
  "create_conversation g conv_type participant_ids name conv_id now =
     (Some \<lparr>cv_conversation_id = conv_id, cv_conversation_type = conv_type, cv_name = name,
            cv_created_at = now\<rparr>,
      fold (add_participant conv_id now) participant_ids
        (g\<lparr>conversations := conversations g @
              [(next_id g, \<lparr>conversation_id = conv_id, conversation_type = conv_type,
                            conversation_name = name, conversation_created_at = now,
                            last_message_at = None\<rparr>)],
           next_id := Suc (next_id g)\<rparr>))"

record message_row =
  mr_message_id :: string
  mr_conversation_id :: string
  mr_sender_id :: string
  mr_sender_username :: string
  mr_content :: string
  mr_timestamp :: time
  mr_edited :: bool

record edited_message_row = message_row +
  mr_edited_at :: "time option"

text \<open>
  \<^verbatim>\<open>send_message\<close>: one row per pair of a conversation node and a sender node; each row
  creates a message node with its two edges and sets the conversation's
  \<^verbatim>\<open>last_message_at\<close>. The pattern asks for no \<^verbatim>\<open>MEMBER_OF\<close> edge.
\<close>

definition send_message ::
  "graph \<Rightarrow> string \<Rightarrow> string \<Rightarrow> string \<Rightarrow> string \<Rightarrow> time \<Rightarrow> message_row option \<times> graph" where
  "send_message g conv_id sender_id cont msg_id now =
     (let rows = [(c, sender).
                    c \<leftarrow> match_conversation g conv_id,
                    sender \<leftarrow> match_player g sender_id];
          created = List.enumerate (next_id g) rows
      in (single (map (\<lambda>(c, sender).
                    \<lparr>mr_message_id = msg_id, mr_conversation_id = conv_id,
                     mr_sender_id = player_id (snd sender),
                     mr_sender_username = username (snd sender),
                     mr_content = cont, mr_timestamp = now, mr_edited = False\<rparr>) rows),
          g\<lparr>messages := messages g @
               map (\<lambda>(i, c, sender).
                  (i, \<lparr>message_id = msg_id, content = cont, timestamp = now, edited = False,
                       edited_at = None\<rparr>)) created,
            conversations :=
               map (\<lambda>n. if n \<in> set (map fst rows)
                         then (fst n, (snd n)\<lparr>last_message_at := Some now\<rparr>) else n)
                 (conversations g),
            edges := edges g @
               concat (map (\<lambda>(i, c, sender).
                  [Edge (fst sender) i SENT, Edge (fst c) i CONTAINS]) created),
            next_id := next_id g + length rows\<rparr>))"

text \<open>
  \<^verbatim>\<open>edit_message\<close>: the three \<^verbatim>\<open>MATCH\<close> clauses bind the message, a sender and a
  conversation; \<^verbatim>\<open>SET\<close> then writes three properties of every bound message.
\<close>

definition edit_message ::
  "graph \<Rightarrow> string \<Rightarrow> string \<Rightarrow> time \<Rightarrow> edited_message_row option \<times> graph" where
  "edit_message g msg_id new_content now =
     (let rows = [(m, sender, c).
                    m \<leftarrow> match_message g msg_id,
                    s \<leftarrow> edges g, dst s = fst m \<and> is_SENT (rel s),
                    sender \<leftarrow> player_at g (src s),
                    k \<leftarrow> edges g, dst k = fst m \<and> is_CONTAINS (rel k),
                    c \<leftarrow> conversation_at g (src k)]
      in (single (map (\<lambda>(m, sender, c).
                    \<lparr>mr_message_id = message_id (snd m),
                     mr_conversation_id = conversation_id (snd c),
                     mr_sender_id = player_id (snd sender),
                     mr_sender_username = username (snd sender),
                     mr_content = new_content, mr_timestamp = timestamp (snd m),
                     mr_edited = True, mr_edited_at = Some now\<rparr>) rows),
          g\<lparr>messages :=
               map (\<lambda>n. if n \<in> set (map fst rows)
                         then (fst n, (snd n)\<lparr>content := new_content, edited := True,
                                               edited_at := Some now\<rparr>)
                         else n)
                 (messages g)\<rparr>))"

section \<open>PartyCRUD\<close>

record party_row =
  py_party_id :: string
  py_game_id :: string
  py_max_size :: int
  py_is_public :: bool

record created_party_row = party_row +
  py_created_at :: time

record membership_row =
  ms_group_id :: string
  ms_player_id :: string
  ms_username :: string

text \<open>
  \<^verbatim>\<open>create_party\<close>: \<^verbatim>\<open>max_size\<close> is the one integer parameter of the statement; when the
  driver cannot pack it, the call raises and the statement does not run.
\<close>

definition create_party ::
  "graph \<Rightarrow> string \<Rightarrow> string \<Rightarrow> int \<Rightarrow> bool \<Rightarrow> string \<Rightarrow> time
     \<Rightarrow> (driver_error + created_party_row option) \<times> graph" where
  "create_party g leader_id gid msize public pid now =
     (if \<not> int64 msize then (Inl OverflowError, g)
      else
        let created = List.enumerate (next_id g) (match_player g leader_id)
        in (Inr (single (map (\<lambda>(i, leader).
                      \<lparr>py_party_id = pid, py_game_id = gid, py_max_size = msize,
                       py_is_public = public, py_created_at = now\<rparr>) created)),
            g\<lparr>parties := parties g @
                 map (\<lambda>(i, leader).
                    (i, \<lparr>party_id = pid, game_id = gid, max_size = msize, is_public = public,
                         party_created_at = now\<rparr>)) created,
              edges := edges g @
                 map (\<lambda>(i, leader). Edge (fst leader) i (IN_PARTY now ''leader'')) created,
              next_id := next_id g + length created\<rparr>))"

text \<open>
  \<^verbatim>\<open>join_party\<close>: the invitation is optional, and nothing in the pattern looks at the
  \<^verbatim>\<open>IN_PARTY\<close> edges the player already has. (\<open>ms_group_id\<close> is the \<^verbatim>\<open>party_id\<close> key of
  the returned dictionary, the \<^verbatim>\<open>clan_id\<close> key for \<^verbatim>\<open>join_clan\<close>.)
\<close>

definition join_party ::
  "graph \<Rightarrow> string \<Rightarrow> string \<Rightarrow> time \<Rightarrow> membership_row option \<times> graph" where
  "join_party g pty_id plr_id now =
     (let rows = [(plr, pty, i).
                    plr \<leftarrow> match_player g plr_id,
                    pty \<leftarrow> match_party g pty_id,
                    i \<leftarrow> optional (filter (\<lambda>e. src e = fst plr \<and> dst e = fst pty \<and>
                                                   is_INVITED_TO (rel e)) (edges g))]
      in (single (map (\<lambda>(plr, pty, i).
                    \<lparr>ms_group_id = party_id (snd pty), ms_player_id = player_id (snd plr),
                     ms_username = username (snd plr)\<rparr>) rows),
          g\<lparr>edges := delete_edges
                        (concat (map (\<lambda>(plr, pty, i). case i of None \<Rightarrow> [] | Some e \<Rightarrow> [e])
                           rows))
                        (edges g) @
               map (\<lambda>(plr, pty, i). Edge (fst plr) (fst pty) (IN_PARTY now ''member'')) rows\<rparr>))"

text \<open>The records of the statement of \<^verbatim>\<open>get_player_party\<close>, and the one it returns.\<close>

definition player_party_records :: "graph \<Rightarrow> string \<Rightarrow> party_row list" where
  "player_party_records g pid =
     [\<lparr>py_party_id = party_id (snd pty), py_game_id = game_id (snd pty),
       py_max_size = max_size (snd pty), py_is_public = is_public (snd pty)\<rparr>.
        p \<leftarrow> match_player g pid,
        e \<leftarrow> edges g, src e = fst p \<and> is_IN_PARTY (rel e),
        pty \<leftarrow> party_at g (dst e)]"

definition get_player_party :: "graph \<Rightarrow> string \<Rightarrow> party_row option" where
  "get_player_party g pid = single (player_party_records g pid)"

section \<open>ClanCRUD\<close>

record clan_row =
  cl_clan_id :: string
  cl_name :: string
  cl_tag :: string
  cl_description :: "string option"
  cl_created_at :: time

record player_clan_row =
  pc_clan_id :: string
  pc_name :: string
  pc_tag :: string
  pc_role :: string
  pc_rank :: int

definition create_clan ::
  "graph \<Rightarrow> string \<Rightarrow> string \<Rightarrow> string \<Rightarrow> string option \<Rightarrow> string \<Rightarrow> time
     \<Rightarrow> clan_row option \<times> graph" where
  "create_clan g name tg owner_id descr cid now =
     (let created = List.enumerate (next_id g) (match_player g owner_id)
      in (single (map (\<lambda>(i, owner).
                    \<lparr>cl_clan_id = cid, cl_name = name, cl_tag = tg, cl_description = descr,
                     cl_created_at = now\<rparr>) created),
          g\<lparr>clans := clans g @
               map (\<lambda>(i, owner).
                  (i, \<lparr>clan_id = cid, clan_name = name, tag = tg, description = descr,
                       clan_created_at = now\<rparr>)) created,
            edges := edges g @
               map (\<lambda>(i, owner). Edge (fst owner) i (BELONGS_TO now ''owner'' 1)) created,
            next_id := next_id g + length created\<rparr>))"

text \<open>
  The first statement of \<^verbatim>\<open>join_clan\<close>: \<^verbatim>\<open>count(m)\<close> over the optional match counts the
  \<^verbatim>\<open>BELONGS_TO\<close> edges that players now have to the clan (none for the \<^verbatim>\<open>null\<close> row, and 0
  when there is no such clan).
\<close>

definition member_count :: "graph \<Rightarrow> string \<Rightarrow> nat" where
  "member_count g cid =
     length [m.
        c \<leftarrow> match_clan g cid,
        e \<leftarrow> edges g, dst e = fst c \<and> is_BELONGS_TO (rel e),
        m \<leftarrow> player_at g (src e)]"

definition join_clan ::
  "graph \<Rightarrow> string \<Rightarrow> string \<Rightarrow> time \<Rightarrow> membership_row option \<times> graph" where
  "join_clan g cid plr_id now =
     (let rnk = int (member_count g cid) + 1;
          rows = [(plr, c).
                    plr \<leftarrow> match_player g plr_id,
                    c \<leftarrow> match_clan g cid]
      in (single (map (\<lambda>(plr, c).
                    \<lparr>ms_group_id = clan_id (snd c), ms_player_id = player_id (snd plr),
                     ms_username = username (snd plr)\<rparr>) rows),
          g\<lparr>edges := edges g @
               map (\<lambda>(plr, c). Edge (fst plr) (fst c) (BELONGS_TO now ''member'' rnk)) rows\<rparr>))"

text \<open>The records of the statement of \<^verbatim>\<open>get_player_clan\<close>, and the one it returns.\<close>

definition player_clan_records :: "graph \<Rightarrow> string \<Rightarrow> player_clan_row list" where
  "player_clan_records g pid =
     [\<lparr>pc_clan_id = clan_id (snd c), pc_name = clan_name (snd c), pc_tag = tag (snd c),
       pc_role = role (rel bt), pc_rank = rank (rel bt)\<rparr>.
        p \<leftarrow> match_player g pid,
        bt \<leftarrow> edges g, src bt = fst p \<and> is_BELONGS_TO (rel bt),
        c \<leftarrow> clan_at g (dst bt)]"

definition get_player_clan :: "graph \<Rightarrow> string \<Rightarrow> player_clan_row option" where
  "get_player_clan g pid = single (player_clan_records g pid)"

definition leave_clan :: "graph \<Rightarrow> string \<Rightarrow> string \<Rightarrow> bool \<times> graph" where
  "leave_clan g cid plr_id =
     (let rows = [bt.
                    p \<leftarrow> match_player g plr_id,
                    bt \<leftarrow> edges g, src bt = fst p \<and> is_BELONGS_TO (rel bt),
                    c \<leftarrow> match_clan g cid, dst bt = fst c]
      in (0 < length rows, g\<lparr>edges := delete_edges rows (edges g)\<rparr>))"

section \<open>FollowCRUD\<close>

record following_row =
  fo_player_id :: string
  fo_username :: string
  fo_status :: string
  following_since :: time

definition follow_player ::
  "graph \<Rightarrow> string \<Rightarrow> string \<Rightarrow> time \<Rightarrow> (string \<times> string) option \<times> graph" where
  "follow_player g follower_id following_id now =
     (let rows = [(follower, following).
                    follower \<leftarrow> match_player g follower_id,
                    following \<leftarrow> match_player g following_id]
      in (single (map (\<lambda>(follower, following).
                    (player_id (snd following), username (snd following))) rows),
          g\<lparr>edges := edges g @
               map (\<lambda>(follower, following). Edge (fst follower) (fst following) (FOLLOWS now))
                 rows\<rparr>))"

definition get_following :: "graph \<Rightarrow> string \<Rightarrow> following_row list" where
  "get_following g pid =
     [\<lparr>fo_player_id = player_id (snd following), fo_username = username (snd following),
       fo_status = status (snd following), following_since = since (rel f)\<rparr>.
        p \<leftarrow> match_player g pid,
        f \<leftarrow> edges g, src f = fst p \<and> is_FOLLOWS (rel f),
        following \<leftarrow> player_at g (dst f)]"

definition unfollow_player :: "graph \<Rightarrow> string \<Rightarrow> string \<Rightarrow> bool \<times> graph" where
  "unfollow_player g follower_id following_id =
     (let rows = [f.
                    follower \<leftarrow> match_player g follower_id,
                    f \<leftarrow> edges g, src f = fst follower \<and> is_FOLLOWS (rel f),
                    following \<leftarrow> match_player g following_id, dst f = fst following]
      in (0 < length rows, g\<lparr>edges := delete_edges rows (edges g)\<rparr>))"

section \<open>Route handlers\<close>

text \<open>
  The handlers of \<^verbatim>\<open>app/routes/neo4j_routes.py\<close> that the properties below speak of: each
  calls its CRUD method and raises \<^verbatim>\<open>HTTPException(status_code=400)\<close> when the method
  returned \<^verbatim>\<open>None\<close>. (The routers' dependency \<^verbatim>\<open>require_neo4j\<close>, which answers 503 while the
  store is not connected, runs before any handler; the handlers are modelled for a
  connected store.)
\<close>

datatype http_error = HTTPException (status_code: nat) (detail: string)

definition handle :: "string \<Rightarrow> 'a option \<times> graph \<Rightarrow> (http_error + 'a) \<times> graph" where
  "handle msg res =
     (case fst res of None \<Rightarrow> (Inl (HTTPException 400 msg), snd res)
      | Some r \<Rightarrow> (Inr r, snd res))"

definition send_friend_request_route ::
  "graph \<Rightarrow> string \<Rightarrow> string \<Rightarrow> string option \<Rightarrow> time \<Rightarrow> (http_error + request_row) \<times> graph" where
  "send_friend_request_route g from_id to_id msg now =
     handle ''Failed to send friend request''
       (send_friend_request g from_id to_id (case msg of None \<Rightarrow> [] | Some m \<Rightarrow> m) now)"

definition send_message_route ::
  "graph \<Rightarrow> string \<Rightarrow> string \<Rightarrow> string \<Rightarrow> string \<Rightarrow> time \<Rightarrow> (http_error + message_row) \<times> graph" where
  "send_message_route g conv_id sender_id cont msg_id now =
     handle ''Failed to send message'' (send_message g conv_id sender_id cont msg_id now)"

definition join_party_route ::
  "graph \<Rightarrow> string \<Rightarrow> string \<Rightarrow> time \<Rightarrow> (http_error + membership_row) \<times> graph" where
  "join_party_route g pty_id plr_id now =
     handle ''Failed to join party'' (join_party g pty_id plr_id now)"

definition join_clan_route ::
  "graph \<Rightarrow> string \<Rightarrow> string \<Rightarrow> time \<Rightarrow> (http_error + membership_row) \<times> graph" where
  "join_clan_route g cid plr_id now =
     handle ''Failed to join clan'' (join_clan g cid plr_id now)"

section \<open>Observations and example graphs\<close>

text \<open>How often \<^verbatim>\<open>get_following(A)\<close> lists \<open>B\<close>.\<close>

definition following_count :: "graph \<Rightarrow> string \<Rightarrow> string \<Rightarrow> nat" where
  "following_count g A B = length (filter (\<lambda>r. fo_player_id r = B) (get_following g A))"

text \<open>Two and three registered players.\<close>

definition two_players :: graph where
  "two_players =
     snd (create_player_node (snd (create_player_node empty_graph ''A'' ''alice'' ''online'' 0))
       ''B'' ''bob'' ''offline'' 1)"

definition three_players :: graph where
  "three_players = snd (create_player_node two_players ''C'' ''carol'' ''away'' 2)"

text \<open>How often \<^verbatim>\<open>get_blocked_players(A)\<close> lists \<open>B\<close>.\<close>

definition blocked_count :: "graph \<Rightarrow> string \<Rightarrow> string \<Rightarrow> nat" where
  "blocked_count g A B =
     length (filter (\<lambda>r. blocked_player_id r = B) (get_blocked_players g A))"

text \<open>\<open>A\<close> has sent \<open>B\<close> a request and \<open>B\<close> has accepted it.\<close>

definition two_friends :: graph where
  "two_friends =
     snd (accept_friend_request (snd (send_friend_request two_players ''A'' ''B'' ''hi'' 2))
       ''A'' ''B'' 3)"

text \<open>A direct conversation of the two players, and one message of \<open>A\<close> in it.\<close>

definition chat :: graph where
  "chat = snd (create_conversation two_players ''direct'' [''A'', ''B''] None ''c1'' 3)"

definition one_message :: graph where
  "one_message = snd (send_message chat ''c1'' ''A'' ''hello'' ''m1'' 4)"

text \<open>Three players, and a conversation of the first two.\<close>

definition chat_of_two :: graph where
  "chat_of_two = snd (create_conversation three_players ''direct'' [''A'', ''B''] None ''c1'' 3)"

text \<open>Each of two players leads a party of their own, and owns a clan of their own.\<close>

definition two_parties :: graph where
  "two_parties =
     snd (create_party (snd (create_party two_players ''A'' ''game'' 4 False ''p1'' 2))
       ''B'' ''game'' 4 True ''p2'' 3)"

definition two_clans :: graph where
  "two_clans =
     snd (create_clan (snd (create_clan two_players ''Alphas'' ''AL'' ''A'' None ''c1'' 2))
       ''Betas'' ''BE'' ''B'' None ''c2'' 3)"

text \<open>
  Four players; \<open>A\<close> founds a clan, \<open>B\<close> and \<open>C\<close> join it, \<open>B\<close> leaves, \<open>D\<close> joins.
\<close>

definition four_players :: graph where
  "four_players = snd (create_player_node three_players ''D'' ''dave'' ''online'' 3)"

definition clan_history :: graph where
  "clan_history =
     snd (join_clan
       (snd (leave_clan
         (snd (join_clan
           (snd (join_clan
             (snd (create_clan four_players ''Alphas'' ''AL'' ''A'' None ''c1'' 4))
             ''c1'' ''B'' 5))
           ''c1'' ''C'' 6))
         ''c1'' ''B''))
       ''c1'' ''D'' 8)"

text \<open>
  Example graphs for friend suggestions. \<open>befriend\<close> is a request followed by its
  acceptance; \<open>befriend_twice\<close> is two requests followed by one acceptance, which the
  code answers with two pairs of \<^verbatim>\<open>FRIENDS_WITH\<close> edges.
\<close>

definition befriend :: "string \<Rightarrow> string \<Rightarrow> time \<Rightarrow> graph \<Rightarrow> graph" where
  "befriend a b now g =
     snd (accept_friend_request (snd (send_friend_request g a b [] now)) a b (Suc now))"

definition five_players :: graph where
  "five_players = snd (create_player_node four_players ''E'' ''erin'' ''online'' 4)"

definition friend_circle :: graph where
  "friend_circle =
     befriend ''C'' ''D'' 18 (befriend ''B'' ''E'' 16 (befriend ''B'' ''D'' 14
       (befriend ''A'' ''C'' 12 (befriend ''A'' ''B'' 10 five_players))))"

definition blocked_by_candidate :: graph where
  "blocked_by_candidate =
     snd (block_player (befriend ''B'' ''C'' 12 (befriend ''A'' ''B'' 10 three_players))
       ''C'' ''A'' None 14)"

definition befriend_twice :: "string \<Rightarrow> string \<Rightarrow> time \<Rightarrow> graph \<Rightarrow> graph" where
  "befriend_twice a b now g =
     snd (accept_friend_request
        (snd (send_friend_request (snd (send_friend_request g a b [] now)) a b [] (Suc now)))
        a b (Suc (Suc now)))"

definition six_players :: graph where
  "six_players = snd (create_player_node five_players ''F'' ''fay'' ''online'' 5)"

definition duplicated_paths :: graph where
  "duplicated_paths =
     befriend ''D'' ''F'' 30 (befriend ''C'' ''F'' 28 (befriend_twice ''B'' ''E'' 24
       (befriend ''A'' ''D'' 22 (befriend ''A'' ''C'' 20 (befriend_twice ''A'' ''B'' 10
          six_players)))))"

text \<open>
  The count the specification speaks of, for comparison with \<^verbatim>\<open>count(friend)\<close>: the number
  of distinct intermediate friends through which the rows of the statement reach the
  candidate \<open>X\<close>.
\<close>

definition distinct_intermediate_friends :: "graph \<Rightarrow> string \<Rightarrow> string \<Rightarrow> nat" where
  "distinct_intermediate_friends g A X =
     length (remdups [player_id (snd friend).
                        (friend, suggestion) \<leftarrow> suggestion_paths g A,
                        player_id (snd suggestion) = X])"

text \<open>
  No two \<^verbatim>\<open>FRIENDS_WITH\<close> edges run from the same node to the same node, whatever their
  properties (two edges that differ only in \<^verbatim>\<open>since\<close> are parallel).
\<close>

definition no_parallel_friendships :: "graph \<Rightarrow> bool" where
  "no_parallel_friendships g =
     distinct (map (\<lambda>e. (src e, dst e)) (filter (\<lambda>e. is_FRIENDS_WITH (rel e)) (edges g)))"

section \<open>Basic facts about matching\<close>

lemma match_player_edges [simp]: "match_player (g\<lparr>edges := es\<rparr>) pid = match_player g pid"
  by (simp add: match_player_def)

lemma player_at_edges [simp]: "player_at (g\<lparr>edges := es\<rparr>) i = player_at g i"
  by (simp add: player_at_def)

lemma length_one_iff: "length xs = Suc 0 \<longleftrightarrow> (\<exists>x. xs = [x])"
  by (cases xs) auto

lemma player_at_match:
  assumes "match_player g B = [b]"
  shows "filter (\<lambda>n. player_id (snd n) = B) (player_at g (fst b)) = [b]"
proof -
  have "filter (\<lambda>n. player_id (snd n) = B) (player_at g (fst b))
        = filter (\<lambda>n. fst n = fst b) (match_player g B)"
    by (simp add: player_at_def match_player_def conj_commute)
  then show ?thesis using assms by simp
qed

lemma match_player_cong: "players g' = players g \<Longrightarrow> match_player g' C = match_player g C"
  by (simp add: match_player_def)

lemma player_at_cong: "players g' = players g \<Longrightarrow> player_at g' i = player_at g i"
  by (simp add: player_at_def)

lemma in_get_friends:
  "B \<in> fr_player_id ` set (get_friends g A) \<longleftrightarrow>
     (\<exists>p \<in> set (match_player g A). \<exists>f \<in> set (edges g).
        src f = fst p \<and> is_FRIENDS_WITH (rel f) \<and>
        (\<exists>n \<in> set (player_at g (dst f)). player_id (snd n) = B))"
  unfolding get_friends_def by (auto simp: image_iff)

lemma concat_map_Nil [simp]: "concat (map (\<lambda>x. []) xs) = []"
  by (induction xs) simp_all

lemma match_player_at: "n \<in> set (match_player g P) \<Longrightarrow> n \<in> set (player_at g (fst n))"
  by (simp add: match_player_def player_at_def)

lemma match_player_id: "n \<in> set (match_player g P) \<Longrightarrow> player_id (snd n) = P"
  by (simp add: match_player_def)

lemma node_unique:
  assumes "distinct (map fst xs)" and "x \<in> set xs" and "y \<in> set xs" and "fst x = fst y"
  shows "x = y"
  using assms by (meson distinct_map inj_onD)

lemma match_player_iff:
  "n \<in> set (match_player g P) \<longleftrightarrow> n \<in> set (players g) \<and> player_id (snd n) = P"
  by (simp add: match_player_def)

lemma player_at_iff: "n \<in> set (player_at g i) \<longleftrightarrow> n \<in> set (players g) \<and> fst n = i"
  by (simp add: player_at_def)

lemma ne_Nil_iff: "xs \<noteq> [] \<longleftrightarrow> (\<exists>x. x \<in> set xs)"
  by (cases xs) auto

lemma optional_ne [simp]: "optional xs \<noteq> []"
  by (simp add: optional_def)

lemma delete_edges_Nil [simp]: "delete_edges [] es = es"
  by (simp add: delete_edges_def)

lemma in_optional_bound:
  "e \<in> set (concat (map (\<lambda>(plr, pty, i). case i of None \<Rightarrow> [] | Some e \<Rightarrow> [e]) rows))
   \<longleftrightarrow> (\<exists>plr pty. (plr, pty, Some e) \<in> set rows)"
  by (induction rows) (auto split: option.splits)

lemma handle_None: "fst r = None \<Longrightarrow> handle msg r = (Inl (HTTPException 400 msg), snd r)"
  by (simp add: handle_def)

lemma handle_Some: "fst r \<noteq> None \<Longrightarrow> \<not> isl (fst (handle msg r)) \<and> snd (handle msg r) = snd r"
  by (auto simp: handle_def split: option.splits)

section \<open>Blocking\<close>

lemma players_block_player [simp]: "players (snd (block_player g A B rsn now)) = players g"
  by (simp add: block_player_def Let_def)

lemma edges_block_player:
  "edges (snd (block_player g A B rsn now)) =
     delete_edges
       (concat (map (\<lambda>(blocker, blocked, f). case f of None \<Rightarrow> [] | Some e \<Rightarrow> [e])
          [(blocker, blocked, f).
             blocker \<leftarrow> match_player g A, blocked \<leftarrow> match_player g B,
             f \<leftarrow> optional (friendship_edges g (fst blocker) (fst blocked))]))
       (edges g) @
     map (\<lambda>(blocker, blocked, f). Edge (fst blocker) (fst blocked) (BLOCKED now rsn))
       [(blocker, blocked, f).
          blocker \<leftarrow> match_player g A, blocked \<leftarrow> match_player g B,
          f \<leftarrow> optional (friendship_edges g (fst blocker) (fst blocked))]"
  by (simp add: block_player_def Let_def)

lemma set_optional: "Some x \<in> set (optional xs) \<longleftrightarrow> x \<in> set xs"
  by (auto simp: optional_def)

lemma block_player_bound:
  "set (concat (map (\<lambda>(blocker, blocked, f). case f of None \<Rightarrow> [] | Some e \<Rightarrow> [e])
          [(blocker, blocked, f).
             blocker \<leftarrow> match_player g A, blocked \<leftarrow> match_player g B,
             f \<leftarrow> optional (friendship_edges g (fst blocker) (fst blocked))]))
   = (\<Union>a \<in> set (match_player g A). \<Union>b \<in> set (match_player g B).
        set (friendship_edges g (fst a) (fst b)))"
  by (fastforce simp: set_optional split: option.splits)

lemma friends_edge_block_player:
  assumes "f \<in> set (edges (snd (block_player g A B rsn now)))" and "is_FRIENDS_WITH (rel f)"
  shows "f \<in> set (edges g)"
    and "a \<in> set (match_player g A) \<Longrightarrow> b \<in> set (match_player g B) \<Longrightarrow>
         \<not> (src f = fst a \<and> dst f = fst b \<or> src f = fst b \<and> dst f = fst a)"
proof -
  have mem: "f \<in> set (edges g) \<and>
      f \<notin> (\<Union>a \<in> set (match_player g A). \<Union>b \<in> set (match_player g B).
              set (friendship_edges g (fst a) (fst b)))"
    using assms unfolding edges_block_player delete_edges_def block_player_bound[symmetric]
    by auto
  then show in_g: "f \<in> set (edges g)" by simp
  assume a: "a \<in> set (match_player g A)" and b: "b \<in> set (match_player g B)"
  from mem a b have "f \<notin> set (friendship_edges g (fst a) (fst b))" by blast
  then show "\<not> (src f = fst a \<and> dst f = fst b \<or> src f = fst b \<and> dst f = fst a)"
    using in_g assms(2) by (simp add: friendship_edges_def)
qed

lemma no_friendship_after_block:
  assumes "a \<in> set (match_player g A)" "b \<in> set (match_player g B)"
  shows "friendship_edges (snd (block_player g A B rsn now)) (fst a) (fst b) = []"
proof -
  have "f \<notin> set (friendship_edges (snd (block_player g A B rsn now)) (fst a) (fst b))" for f
  proof
    assume "f \<in> set (friendship_edges (snd (block_player g A B rsn now)) (fst a) (fst b))"
    then have f: "f \<in> set (edges (snd (block_player g A B rsn now)))" "is_FRIENDS_WITH (rel f)"
      and between: "src f = fst a \<and> dst f = fst b \<or> src f = fst b \<and> dst f = fst a"
      by (simp_all add: friendship_edges_def)
    from friends_edge_block_player(2)[OF f assms] between show False by simp
  qed
  then show ?thesis by (cases "friendship_edges (snd (block_player g A B rsn now)) (fst a) (fst b)") auto
qed

lemma block_player_again:
  assumes "match_player g A = [a]" "match_player g B = [b]"
    and "friendship_edges g (fst a) (fst b) = []"
  shows "block_player g A B rsn now =
          (Some (blocked_record b (BLOCKED now rsn)),
           g\<lparr>edges := edges g @ [Edge (fst a) (fst b) (BLOCKED now rsn)]\<rparr>)"
  using assms by (simp add: block_player_def Let_def optional_def delete_edges_def)

lemma blocked_count_append:
  assumes "match_player g A = [a]" "match_player g B = [b]"
  shows "blocked_count (g\<lparr>edges := edges g @ [Edge (fst a) (fst b) (BLOCKED now rsn)]\<rparr>) A B
         = Suc (blocked_count g A B)"
  using assms player_at_match[OF assms(2)]
  by (simp add: blocked_count_def get_blocked_players_def blocked_record_def filter_concat filter_map
      comp_def cong: if_cong)

section \<open>Friend requests\<close>

lemma players_send_friend_request [simp]:
  "players (snd (send_friend_request g F T msg now)) = players g"
  by (simp add: send_friend_request_def Let_def)

lemma send_friend_request_no_rows:
  assumes "match_player g F = [] \<or> match_player g T = []"
  shows "send_friend_request g F T msg now = (None, g)"
  using assms by (auto simp: send_friend_request_def Let_def)

lemma send_friend_request_rows:
  assumes "match_player g F \<noteq> []" and "match_player g T \<noteq> []"
  shows "fst (send_friend_request g F T msg now) \<noteq> None"
proof -
  from assms obtain f fs t ts where "match_player g F = f # fs" "match_player g T = t # ts"
    by (metis list.exhaust)
  then show ?thesis by (simp add: send_friend_request_def Let_def)
qed

lemma edges_send_friend_request:
  "edges (snd (send_friend_request g F T msg now)) =
     edges g @ [Edge (fst from) (fst to) (SENT_REQUEST now msg).
                  from \<leftarrow> match_player g F, to \<leftarrow> match_player g T]"
  by (simp add: send_friend_request_def Let_def map_concat comp_def)

lemma in_get_pending_requests:
  "F \<in> from_player_id ` set (get_pending_requests g T) \<longleftrightarrow>
     (\<exists>to \<in> set (match_player g T). \<exists>r \<in> set (edges g).
        dst r = fst to \<and> is_SENT_REQUEST (rel r) \<and>
        (\<exists>n \<in> set (player_at g (src r)). player_id (snd n) = F))"
  unfolding get_pending_requests_def by (auto simp: image_iff request_record_def)

lemma in_edges_send:
  "e \<in> set (edges (snd (send_friend_request g A B msg now))) \<longleftrightarrow>
     e \<in> set (edges g) \<or>
     (\<exists>a \<in> set (match_player g A). \<exists>b \<in> set (match_player g B).
        e = Edge (fst a) (fst b) (SENT_REQUEST now msg))"
  unfolding edges_send_friend_request by auto

section \<open>Accepting a request\<close>

lemma players_accept_friend_request [simp]:
  "players (snd (accept_friend_request g A B now)) = players g"
  by (simp add: accept_friend_request_def Let_def)

lemma accept_friend_request_rows:
  obtains rows where
    "set rows = {(a, r, b). a \<in> set (match_player g A) \<and> r \<in> set (edges g) \<and> src r = fst a \<and>
                   is_SENT_REQUEST (rel r) \<and> b \<in> set (match_player g B) \<and> dst r = fst b}"
    and "edges (snd (accept_friend_request g A B now)) =
           delete_edges (map (\<lambda>(from, r, to). r) rows) (edges g) @
           concat (map (\<lambda>(from, r, to).
                  [Edge (fst from) (fst to) (FRIENDS_WITH now None),
                   Edge (fst to) (fst from) (FRIENDS_WITH now None)]) rows)"
    and "fst (accept_friend_request g A B now) = None \<longleftrightarrow> rows = []"
proof -
  define rows where "rows = [(from, r, to).
            from \<leftarrow> match_player g A,
            r \<leftarrow> edges g, src r = fst from \<and> is_SENT_REQUEST (rel r),
            to \<leftarrow> match_player g B, dst r = fst to]"
  have 1: "set rows = {(a, r, b). a \<in> set (match_player g A) \<and> r \<in> set (edges g) \<and> src r = fst a \<and>
                   is_SENT_REQUEST (rel r) \<and> b \<in> set (match_player g B) \<and> dst r = fst b}"
    unfolding rows_def by auto
  have 2: "edges (snd (accept_friend_request g A B now)) =
           delete_edges (map (\<lambda>(from, r, to). r) rows) (edges g) @
           concat (map (\<lambda>(from, r, to).
                  [Edge (fst from) (fst to) (FRIENDS_WITH now None),
                   Edge (fst to) (fst from) (FRIENDS_WITH now None)]) rows)"
    unfolding rows_def by (simp add: accept_friend_request_def Let_def)
  have "fst (accept_friend_request g A B now)
          = single (map (\<lambda>(from, r, to).
                    \<lparr>player1_id = player_id (snd from), player2_id = player_id (snd to),
                     fs_since = now\<rparr>) rows)"
    unfolding rows_def by (simp add: accept_friend_request_def Let_def)
  then have 3: "fst (accept_friend_request g A B now) = None \<longleftrightarrow> rows = []"
    by (cases rows) simp_all
  from 1 2 3 show thesis by (rule that)
qed

lemma in_bound_rows: "e \<in> set (map (\<lambda>(from, r, to). r) rows) \<longleftrightarrow> (\<exists>f t. (f, e, t) \<in> set rows)"
  by force

lemma in_created_rows:
  "e \<in> set (concat (map (\<lambda>(from, r, to). [Edge (fst from) (fst to) X, Edge (fst to) (fst from) X]) rows))
   \<longleftrightarrow> (\<exists>f r t. (f, r, t) \<in> set rows \<and> (e = Edge (fst f) (fst t) X \<or> e = Edge (fst t) (fst f) X))"
proof -
  have "e \<in> set (concat (map (\<lambda>(from, r, to). [Edge (fst from) (fst to) X, Edge (fst to) (fst from) X]) rows))
    \<longleftrightarrow> (\<exists>x \<in> set rows. e = Edge (fst (fst x)) (fst (snd (snd x))) X \<or>
           e = Edge (fst (snd (snd x))) (fst (fst x)) X)"
    by (simp add: split_def)
  also have "\<dots> \<longleftrightarrow> (\<exists>f r t. (f, r, t) \<in> set rows \<and>
       (e = Edge (fst f) (fst t) X \<or> e = Edge (fst t) (fst f) X))"
  proof
    assume "\<exists>x \<in> set rows. e = Edge (fst (fst x)) (fst (snd (snd x))) X \<or>
           e = Edge (fst (snd (snd x))) (fst (fst x)) X"
    then obtain x where x: "x \<in> set rows" "e = Edge (fst (fst x)) (fst (snd (snd x))) X \<or>
           e = Edge (fst (snd (snd x))) (fst (fst x)) X" by blast
    then have "(fst x, fst (snd x), snd (snd x)) \<in> set rows" by simp
    with x(2) show "\<exists>f r t. (f, r, t) \<in> set rows \<and>
       (e = Edge (fst f) (fst t) X \<or> e = Edge (fst t) (fst f) X)" by blast
  next
    assume "\<exists>f r t. (f, r, t) \<in> set rows \<and>
       (e = Edge (fst f) (fst t) X \<or> e = Edge (fst t) (fst f) X)"
    then show "\<exists>x \<in> set rows. e = Edge (fst (fst x)) (fst (snd (snd x))) X \<or>
           e = Edge (fst (snd (snd x))) (fst (fst x)) X" by force
  qed
  finally show ?thesis .
qed

lemma in_edges_accept:
  "e \<in> set (edges (snd (accept_friend_request g A B now))) \<longleftrightarrow>
     (e \<in> set (edges g) \<and>
      \<not> (is_SENT_REQUEST (rel e) \<and> src e \<in> fst ` set (match_player g A) \<and>
         dst e \<in> fst ` set (match_player g B))) \<or>
     (\<exists>a \<in> set (match_player g A). \<exists>b \<in> set (match_player g B). \<exists>r \<in> set (edges g).
        src r = fst a \<and> dst r = fst b \<and> is_SENT_REQUEST (rel r) \<and>
        (e = Edge (fst a) (fst b) (FRIENDS_WITH now None) \<or>
         e = Edge (fst b) (fst a) (FRIENDS_WITH now None)))"
proof -
  obtain rows where rows: "set rows = {(a, r, b). a \<in> set (match_player g A) \<and> r \<in> set (edges g) \<and>
        src r = fst a \<and> is_SENT_REQUEST (rel r) \<and> b \<in> set (match_player g B) \<and> dst r = fst b}"
    and e: "edges (snd (accept_friend_request g A B now)) =
           delete_edges (map (\<lambda>(from, r, to). r) rows) (edges g) @
           concat (map (\<lambda>(from, r, to).
                  [Edge (fst from) (fst to) (FRIENDS_WITH now None),
                   Edge (fst to) (fst from) (FRIENDS_WITH now None)]) rows)"
    and "fst (accept_friend_request g A B now) = None \<longleftrightarrow> rows = []"
    by (rule accept_friend_request_rows[of g A B now])
  have b: "(\<exists>f t. (f, e, t) \<in> set rows) \<longleftrightarrow>
      (e \<in> set (edges g) \<and> is_SENT_REQUEST (rel e) \<and> src e \<in> fst ` set (match_player g A) \<and>
         dst e \<in> fst ` set (match_player g B))"
    unfolding rows by (auto intro: rev_image_eqI)
  have c: "(\<exists>f r t. (f, r, t) \<in> set rows \<and> (e = Edge (fst f) (fst t) (FRIENDS_WITH now None)
              \<or> e = Edge (fst t) (fst f) (FRIENDS_WITH now None))) \<longleftrightarrow>
     (\<exists>a \<in> set (match_player g A). \<exists>b \<in> set (match_player g B). \<exists>r \<in> set (edges g).
        src r = fst a \<and> dst r = fst b \<and> is_SENT_REQUEST (rel r) \<and>
        (e = Edge (fst a) (fst b) (FRIENDS_WITH now None) \<or>
         e = Edge (fst b) (fst a) (FRIENDS_WITH now None)))"
    unfolding rows by blast
  have "e \<in> set (edges (snd (accept_friend_request g A B now))) \<longleftrightarrow>
      (e \<in> set (edges g) \<and> \<not> (\<exists>f t. (f, e, t) \<in> set rows)) \<or>
      (\<exists>f r t. (f, r, t) \<in> set rows \<and> (e = Edge (fst f) (fst t) (FRIENDS_WITH now None)
              \<or> e = Edge (fst t) (fst f) (FRIENDS_WITH now None)))"
    unfolding e delete_edges_def set_append Un_iff in_created_rows set_filter mem_Collect_eq
      in_bound_rows by (rule refl)
  then show ?thesis unfolding b c by blast
qed

lemma accept_creates:
  assumes "a \<in> set (match_player g A)" and "b \<in> set (match_player g B)"
    and "r \<in> set (edges g)" and "src r = fst a" and "dst r = fst b" and "is_SENT_REQUEST (rel r)"
  shows "Edge (fst a) (fst b) (FRIENDS_WITH now None)
           \<in> set (edges (snd (accept_friend_request g A B now)))"
    and "Edge (fst b) (fst a) (FRIENDS_WITH now None)
           \<in> set (edges (snd (accept_friend_request g A B now)))"
    and "fst (accept_friend_request g A B now) \<noteq> None"
proof -
  show "Edge (fst a) (fst b) (FRIENDS_WITH now None)
           \<in> set (edges (snd (accept_friend_request g A B now)))"
    unfolding in_edges_accept using assms by blast
  show "Edge (fst b) (fst a) (FRIENDS_WITH now None)
           \<in> set (edges (snd (accept_friend_request g A B now)))"
    unfolding in_edges_accept using assms by blast
  obtain rows where rows: "set rows = {(a, r, b). a \<in> set (match_player g A) \<and> r \<in> set (edges g) \<and>
        src r = fst a \<and> is_SENT_REQUEST (rel r) \<and> b \<in> set (match_player g B) \<and> dst r = fst b}"
    and "edges (snd (accept_friend_request g A B now)) =
           delete_edges (map (\<lambda>(from, r, to). r) rows) (edges g) @
           concat (map (\<lambda>(from, r, to).
                  [Edge (fst from) (fst to) (FRIENDS_WITH now None),
                   Edge (fst to) (fst from) (FRIENDS_WITH now None)]) rows)"
    and n: "fst (accept_friend_request g A B now) = None \<longleftrightarrow> rows = []"
    by (rule accept_friend_request_rows[of g A B now])
  have "(a, r, b) \<in> set rows" unfolding rows using assms by simp
  then have "rows \<noteq> []" by auto
  then show "fst (accept_friend_request g A B now) \<noteq> None" using n by simp
qed

section \<open>Messages\<close>

lemma edit_message_rows:
  obtains S where
    "snd (edit_message g M c now) =
       g\<lparr>messages := map (\<lambda>n. if n \<in> S
                then (fst n, (snd n)\<lparr>content := c, edited := True, edited_at := Some now\<rparr>)
                else n) (messages g)\<rparr>"
    and "S = {n \<in> set (match_message g M).
          (\<exists>s \<in> set (edges g). dst s = fst n \<and> is_SENT (rel s) \<and> player_at g (src s) \<noteq> []) \<and>
          (\<exists>k \<in> set (edges g). dst k = fst n \<and> is_CONTAINS (rel k) \<and>
             conversation_at g (src k) \<noteq> [])}"
    and "fst (edit_message g M c now) = None \<longleftrightarrow> S = {}"
proof -
  define rows where "rows = [(m, sender, cv).
                    m \<leftarrow> match_message g M,
                    s \<leftarrow> edges g, dst s = fst m \<and> is_SENT (rel s),
                    sender \<leftarrow> player_at g (src s),
                    k \<leftarrow> edges g, dst k = fst m \<and> is_CONTAINS (rel k),
                    cv \<leftarrow> conversation_at g (src k)]"
  have 1: "snd (edit_message g M c now) =
       g\<lparr>messages := map (\<lambda>n. if n \<in> set (map fst rows)
                then (fst n, (snd n)\<lparr>content := c, edited := True, edited_at := Some now\<rparr>)
                else n) (messages g)\<rparr>"
    unfolding rows_def by (simp add: edit_message_def Let_def)
  have 2: "n \<in> set (map fst rows) \<longleftrightarrow>
          n \<in> set (match_message g M) \<and>
          (\<exists>s \<in> set (edges g). dst s = fst n \<and> is_SENT (rel s) \<and> player_at g (src s) \<noteq> []) \<and>
          (\<exists>k \<in> set (edges g). dst k = fst n \<and> is_CONTAINS (rel k) \<and>
             conversation_at g (src k) \<noteq> [])" for n
    unfolding rows_def ne_Nil_iff by (auto simp: image_iff)
  have "fst (edit_message g M c now) = single (map (\<lambda>(m, sender, cv).
                    \<lparr>mr_message_id = message_id (snd m),
                     mr_conversation_id = conversation_id (snd cv),
                     mr_sender_id = player_id (snd sender),
                     mr_sender_username = username (snd sender),
                     mr_content = c, mr_timestamp = timestamp (snd m),
                     mr_edited = True, mr_edited_at = Some now\<rparr>) rows)"
    unfolding rows_def by (simp add: edit_message_def Let_def)
  then have 3: "fst (edit_message g M c now) = None \<longleftrightarrow> set (map fst rows) = {}"
    by (cases rows) simp_all
  from 2 have S_eq: "set (map fst rows) = {n \<in> set (match_message g M).
          (\<exists>s \<in> set (edges g). dst s = fst n \<and> is_SENT (rel s) \<and> player_at g (src s) \<noteq> []) \<and>
          (\<exists>k \<in> set (edges g). dst k = fst n \<and> is_CONTAINS (rel k) \<and>
             conversation_at g (src k) \<noteq> [])}"
    by blast
  from 1 S_eq 3 show thesis by (rule that)
qed

lemma send_message_no_rows:
  assumes "match_conversation g C = [] \<or> match_player g S = []"
  shows "send_message g C S c mid now = (None, g)"
  using assms by (auto simp: send_message_def Let_def enumerate_eq_zip)

lemma send_message_first_row:
  assumes "match_conversation g C = cv # cvs" and "match_player g S = s # ss"
  shows "fst (send_message g C S c mid now) \<noteq> None"
    and "(next_id g, \<lparr>message_id = mid, content = c, timestamp = now, edited = False,
            edited_at = None\<rparr>) \<in> set (messages (snd (send_message g C S c mid now)))"
    and "Edge (fst s) (next_id g) SENT \<in> set (edges (snd (send_message g C S c mid now)))"
    and "Edge (fst cv) (next_id g) CONTAINS \<in> set (edges (snd (send_message g C S c mid now)))"
  using assms by (simp_all add: send_message_def Let_def)

lemma length_messages_send_message:
  "length (messages (snd (send_message g C S c mid now)))
     = length (messages g) + length (match_conversation g C) * length (match_player g S)"
  by (simp add: send_message_def Let_def length_concat comp_def sum_list_triv)

lemma conversations_send_message:
  assumes "match_player g S \<noteq> []"
  shows "conversations (snd (send_message g C S c mid now))
     = map (\<lambda>n. if conversation_id (snd n) = C then (fst n, (snd n)\<lparr>last_message_at := Some now\<rparr>)
                 else n) (conversations g)"
proof -
  from assms obtain s where s: "s \<in> set (match_player g S)" by (meson last_in_set)
  have "set (map fst [(cv, sender). cv \<leftarrow> match_conversation g C, sender \<leftarrow> match_player g S])
        = set (match_conversation g C)"
    using s by (auto simp: image_iff) (metis prod.collapse)
  then have "n \<in> set (map fst [(cv, sender). cv \<leftarrow> match_conversation g C, sender \<leftarrow> match_player g S])
        \<longleftrightarrow> conversation_id (snd n) = C" if "n \<in> set (conversations g)" for n
    using that by (simp add: match_conversation_def del: set_map set_concat)
  then show ?thesis
    by (simp add: send_message_def Let_def del: set_map set_concat cong: map_cong)
qed

section \<open>Parties and clans\<close>

lemma join_party_no_rows:
  assumes "match_player g P = [] \<or> match_party g Y = []"
  shows "join_party g Y P now = (None, g)"
  using assms by (auto simp: join_party_def Let_def)

lemma join_party_rows:
  obtains rows where
    "edges (snd (join_party g Y P now)) =
       delete_edges (concat (map (\<lambda>(plr, pty, i). case i of None \<Rightarrow> [] | Some e \<Rightarrow> [e]) rows))
         (edges g) @
       map (\<lambda>(plr, pty, i). Edge (fst plr) (fst pty) (IN_PARTY now ''member'')) rows"
    and "\<forall>plr pty i. (plr, pty, Some i) \<in> set rows \<longrightarrow> is_INVITED_TO (rel i)"
    and "\<forall>plr \<in> set (match_player g P). \<forall>pty \<in> set (match_party g Y). \<exists>i. (plr, pty, i) \<in> set rows"
    and "fst (join_party g Y P now) = None \<longleftrightarrow> rows = []"
proof -
  define rows where "rows = [(plr, pty, i).
                    plr \<leftarrow> match_player g P,
                    pty \<leftarrow> match_party g Y,
                    i \<leftarrow> optional (filter (\<lambda>e. src e = fst plr \<and> dst e = fst pty \<and>
                                                   is_INVITED_TO (rel e)) (edges g))]"
  have 1: "edges (snd (join_party g Y P now)) =
       delete_edges (concat (map (\<lambda>(plr, pty, i). case i of None \<Rightarrow> [] | Some e \<Rightarrow> [e]) rows))
         (edges g) @
       map (\<lambda>(plr, pty, i). Edge (fst plr) (fst pty) (IN_PARTY now ''member'')) rows"
    unfolding rows_def by (simp add: join_party_def Let_def)
  have 2: "\<forall>plr pty i. (plr, pty, Some i) \<in> set rows \<longrightarrow> is_INVITED_TO (rel i)"
    unfolding rows_def by (auto simp: set_optional)
  have 3: "\<forall>plr \<in> set (match_player g P). \<forall>pty \<in> set (match_party g Y). \<exists>i. (plr, pty, i) \<in> set rows"
  proof (intro ballI)
    fix plr pty assume a: "plr \<in> set (match_player g P)" "pty \<in> set (match_party g Y)"
    obtain i where "i \<in> set (optional (filter (\<lambda>e. src e = fst plr \<and> dst e = fst pty \<and>
                                                   is_INVITED_TO (rel e)) (edges g)))"
      using optional_ne by (meson last_in_set)
    with a have "(plr, pty, i) \<in> set rows" unfolding rows_def by auto
    then show "\<exists>i. (plr, pty, i) \<in> set rows" ..
  qed
  have "fst (join_party g Y P now) = single (map (\<lambda>(plr, pty, i).
                    \<lparr>ms_group_id = party_id (snd pty), ms_player_id = player_id (snd plr),
                     ms_username = username (snd plr)\<rparr>) rows)"
    unfolding rows_def by (simp add: join_party_def Let_def)
  then have 4: "fst (join_party g Y P now) = None \<longleftrightarrow> rows = []"
    by (cases rows) simp_all
  from 1 2 3 4 show thesis by (rule that)
qed

lemma join_party_edges:
  assumes "p \<in> set (match_player g P)" and "y \<in> set (match_party g Y)"
  shows "fst (join_party g Y P now) \<noteq> None"
    and "Edge (fst p) (fst y) (IN_PARTY now ''member'') \<in> set (edges (snd (join_party g Y P now)))"
    and "e \<in> set (edges g) \<Longrightarrow> \<not> is_INVITED_TO (rel e)
           \<Longrightarrow> e \<in> set (edges (snd (join_party g Y P now)))"
proof -
  obtain rows where e: "edges (snd (join_party g Y P now)) =
       delete_edges (concat (map (\<lambda>(plr, pty, i). case i of None \<Rightarrow> [] | Some e \<Rightarrow> [e]) rows))
         (edges g) @
       map (\<lambda>(plr, pty, i). Edge (fst plr) (fst pty) (IN_PARTY now ''member'')) rows"
    and inv: "\<forall>plr pty i. (plr, pty, Some i) \<in> set rows \<longrightarrow> is_INVITED_TO (rel i)"
    and ex: "\<forall>plr \<in> set (match_player g P). \<forall>pty \<in> set (match_party g Y). \<exists>i. (plr, pty, i) \<in> set rows"
    and none: "fst (join_party g Y P now) = None \<longleftrightarrow> rows = []"
    by (rule join_party_rows[of g Y P now])
  from ex assms obtain i where row: "(p, y, i) \<in> set rows" by blast
  then have "rows \<noteq> []" by auto
  then show "fst (join_party g Y P now) \<noteq> None" using none by simp
  from row have "Edge (fst p) (fst y) (IN_PARTY now ''member'')
      \<in> set (map (\<lambda>(plr, pty, i). Edge (fst plr) (fst pty) (IN_PARTY now ''member'')) rows)"
    by force
  then show "Edge (fst p) (fst y) (IN_PARTY now ''member'') \<in> set (edges (snd (join_party g Y P now)))"
    unfolding e by simp
  assume "e \<in> set (edges g)" and n: "\<not> is_INVITED_TO (rel e)"
  moreover from n inv have "\<not> (\<exists>plr pty. (plr, pty, Some e) \<in> set rows)" by blast
  ultimately have "e \<in> set (delete_edges
      (concat (map (\<lambda>(plr, pty, i). case i of None \<Rightarrow> [] | Some e \<Rightarrow> [e]) rows)) (edges g))"
    unfolding delete_edges_def set_filter in_optional_bound by simp
  then show "e \<in> set (edges (snd (join_party g Y P now)))"
    unfolding e by simp
qed

lemma players_join_party [simp]: "players (snd (join_party g Y P now)) = players g"
  by (simp add: join_party_def Let_def)

lemma parties_join_party [simp]: "parties (snd (join_party g Y P now)) = parties g"
  by (simp add: join_party_def Let_def)

lemma in_player_party_records:
  "X \<in> py_party_id ` set (player_party_records g P) \<longleftrightarrow>
     (\<exists>p \<in> set (match_player g P). \<exists>e \<in> set (edges g).
        src e = fst p \<and> is_IN_PARTY (rel e) \<and>
        (\<exists>y \<in> set (party_at g (dst e)). party_id (snd y) = X))"
  unfolding player_party_records_def by (auto simp: image_iff)

lemma join_clan_no_rows:
  assumes "match_player g P = [] \<or> match_clan g C = []"
  shows "join_clan g C P now = (None, g)"
  using assms by (auto simp: join_clan_def Let_def)

lemma join_clan_edges:
  assumes "p \<in> set (match_player g P)" and "c \<in> set (match_clan g C)"
  shows "fst (join_clan g C P now) \<noteq> None"
    and "Edge (fst p) (fst c) (BELONGS_TO now ''member'' (int (member_count g C) + 1))
           \<in> set (edges (snd (join_clan g C P now)))"
    and "e \<in> set (edges g) \<Longrightarrow> e \<in> set (edges (snd (join_clan g C P now)))"
proof -
  define rows where "rows = [(plr, c). plr \<leftarrow> match_player g P, c \<leftarrow> match_clan g C]"
  have row: "(p, c) \<in> set rows" unfolding rows_def using assms by auto
  have e: "edges (snd (join_clan g C P now)) = edges g @
       map (\<lambda>(plr, c). Edge (fst plr) (fst c) (BELONGS_TO now ''member'' (int (member_count g C) + 1)))
         rows"
    unfolding rows_def by (simp add: join_clan_def Let_def)
  have "fst (join_clan g C P now) = single (map (\<lambda>(plr, c).
                    \<lparr>ms_group_id = clan_id (snd c), ms_player_id = player_id (snd plr),
                     ms_username = username (snd plr)\<rparr>) rows)"
    unfolding rows_def by (simp add: join_clan_def Let_def)
  moreover from row have "rows \<noteq> []" by auto
  ultimately show "fst (join_clan g C P now) \<noteq> None" by (cases rows) simp_all
  from row have "Edge (fst p) (fst c) (BELONGS_TO now ''member'' (int (member_count g C) + 1))
      \<in> set (map (\<lambda>(plr, c). Edge (fst plr) (fst c)
             (BELONGS_TO now ''member'' (int (member_count g C) + 1))) rows)"
    by force
  then show "Edge (fst p) (fst c) (BELONGS_TO now ''member'' (int (member_count g C) + 1))
           \<in> set (edges (snd (join_clan g C P now)))"
    unfolding e by simp
  show "e \<in> set (edges g) \<Longrightarrow> e \<in> set (edges (snd (join_clan g C P now)))"
    unfolding e by simp
qed

lemma players_join_clan [simp]: "players (snd (join_clan g C P now)) = players g"
  by (simp add: join_clan_def Let_def)

lemma clans_join_clan [simp]: "clans (snd (join_clan g C P now)) = clans g"
  by (simp add: join_clan_def Let_def)

lemma in_player_clan_records:
  "X \<in> pc_clan_id ` set (player_clan_records g P) \<longleftrightarrow>
     (\<exists>p \<in> set (match_player g P). \<exists>e \<in> set (edges g).
        src e = fst p \<and> is_BELONGS_TO (rel e) \<and>
        (\<exists>c \<in> set (clan_at g (dst e)). clan_id (snd c) = X))"
  unfolding player_clan_records_def by (auto simp: image_iff)

lemma match_clan_edges [simp]: "match_clan (g\<lparr>edges := es\<rparr>) C = match_clan g C"
  by (simp add: match_clan_def)

lemma join_clan_single:
  assumes "match_player g P = [p]" and "match_clan g C = [c]"
  shows "snd (join_clan g C P now) =
     g\<lparr>edges := edges g @ [Edge (fst p) (fst c) (BELONGS_TO now ''member'' (int (member_count g C) + 1))]\<rparr>"
  using assms by (simp add: join_clan_def Let_def)

lemma member_count_append:
  assumes "match_clan g C = [c]" and "player_at g i = [p]"
  shows "member_count (g\<lparr>edges := edges g @ [Edge i (fst c) (BELONGS_TO now r k)]\<rparr>) C
         = Suc (member_count g C)"
  using assms by (simp add: member_count_def cong: if_cong)

section \<open>Friend suggestions\<close>

lemma in_suggestion_paths:
  assumes "(friend, s) \<in> set (suggestion_paths g A)"
  shows "s \<in> set (players g)" and "player_id (snd s) \<noteq> A"
    and "\<exists>p \<in> set (match_player g A). \<not> has_edge g (fst p) is_FRIENDS_WITH (fst s) \<and>
            \<not> has_edge g (fst p) is_BLOCKED (fst s)"
  using assms unfolding suggestion_paths_def by (auto simp: player_at_def) (metis fst_conv)

lemma in_get_blocked_players:
  "B \<in> blocked_player_id ` set (get_blocked_players g A) \<longleftrightarrow>
     (\<exists>p \<in> set (match_player g A). \<exists>b \<in> set (edges g).
        src b = fst p \<and> is_BLOCKED (rel b) \<and>
        (\<exists>n \<in> set (player_at g (dst b)). player_id (snd n) = B))"
  unfolding get_blocked_players_def by (auto simp: image_iff blocked_record_def)

lemma suggestions_result:
  assumes "0 \<le> N" and "N < 2 ^ 63"
  obtains keys where
    "keys = map (\<lambda>(friend, suggestion).
                      (player_id (snd suggestion), username (snd suggestion),
                       status (snd suggestion))) (suggestion_paths g A)"
    and "get_friend_suggestions g A N =
      Inr (take (nat N) (sort_key (\<lambda>r. - int (mutual_friends r))
        (map (\<lambda>k. \<lparr>sg_player_id = fst k, sg_username = fst (snd k), sg_status = snd (snd k),
                      mutual_friends = count_list keys k\<rparr>) (remdups keys))))"
  using assms by (simp add: get_friend_suggestions_def int64_def Let_def)

lemma player_unique:
  assumes "unique_player_ids g" and "x \<in> set (players g)" and "y \<in> set (players g)"
    and "player_id (snd x) = player_id (snd y)"
  shows "x = y"
  using assms unfolding unique_player_ids_def by (meson distinct_map inj_onD)

lemma count_list_map_key:
  "count_list (map h xs) k = length (filter (\<lambda>x. h x = k) xs)"
  by (induction xs) auto

lemma distinct_map_transfer:
  assumes "distinct (map k2 xs)"
    and "\<And>a b. a \<in> set xs \<Longrightarrow> b \<in> set xs \<Longrightarrow> k a = k b \<Longrightarrow> k2 a = k2 b"
  shows "distinct (map k xs)"
proof -
  from assms(1) have d: "distinct xs" and i: "inj_on k2 (set xs)"
    by (simp_all add: distinct_map)
  have "inj_on k (set xs)"
  proof (rule inj_onI)
    fix a b assume ab: "a \<in> set xs" "b \<in> set xs" "k a = k b"
    from assms(2)[OF ab] have "k2 a = k2 b" .
    with i ab show "a = b" by (meson inj_onD)
  qed
  with d show ?thesis by (simp add: distinct_map)
qed

lemma distinct_map_concat_map:
  assumes "distinct (map c (filter Q xs))"
    and "\<And>x. x \<in> set xs \<Longrightarrow> \<not> Q x \<Longrightarrow> F x = []"
    and "\<And>x. x \<in> set xs \<Longrightarrow> Q x \<Longrightarrow> distinct (map k (F x))"
    and "\<And>x y. x \<in> set xs \<Longrightarrow> y \<in> set xs \<Longrightarrow> Q x \<Longrightarrow> Q y \<Longrightarrow> c x \<noteq> c y
           \<Longrightarrow> set (map k (F x)) \<inter> set (map k (F y)) = {}"
  shows "distinct (map k (concat (map F xs)))"
  using assms
proof (induction xs)
  case Nil
  then show ?case by simp
next
  case (Cons x xs)
  have ih: "distinct (map k (concat (map F xs)))"
  proof (rule Cons.IH)
    show "distinct (map c (filter Q xs))" using Cons.prems(1) by (simp split: if_splits)
    show "\<And>x. x \<in> set xs \<Longrightarrow> \<not> Q x \<Longrightarrow> F x = []" using Cons.prems(2) by simp
    show "\<And>x. x \<in> set xs \<Longrightarrow> Q x \<Longrightarrow> distinct (map k (F x))" using Cons.prems(3) by simp
    show "\<And>x y. x \<in> set xs \<Longrightarrow> y \<in> set xs \<Longrightarrow> Q x \<Longrightarrow> Q y \<Longrightarrow> c x \<noteq> c y
           \<Longrightarrow> set (map k (F x)) \<inter> set (map k (F y)) = {}" using Cons.prems(4) by simp
  qed
  show ?case
  proof (cases "Q x")
    case False
    then have "F x = []" using Cons.prems(2) by simp
    with ih show ?thesis by simp
  next
    case True
    have dx: "distinct (map k (F x))" using Cons.prems(3) True by simp
    have disj: "set (map k (F x)) \<inter> set (map k (F y)) = {}" if y: "y \<in> set xs" for y
    proof (cases "Q y")
      case False
      then have "F y = []" using Cons.prems(2) y by simp
      then show ?thesis by simp
    next
      case Qy: True
      from Cons.prems(1) True have "c x \<notin> set (map c (filter Q xs))" by simp
      with y Qy have "c x \<noteq> c y" by auto
      with Cons.prems(4)[of x y] True Qy y show ?thesis by simp
    qed
    have "set (map k (F x)) \<inter> set (map k (concat (map F xs))) = {}"
    proof (rule ccontr)
      assume "set (map k (F x)) \<inter> set (map k (concat (map F xs))) \<noteq> {}"
      then obtain v where v: "v \<in> set (map k (F x))" "v \<in> set (map k (concat (map F xs)))"
        by blast
      from v(2) obtain y where "y \<in> set xs" "v \<in> set (map k (F y))" by auto
      with disj v(1) show False by blast
    qed
    with dx ih show ?thesis by simp
  qed
qed

lemma concat_map_if_singleton:
  "concat (map (\<lambda>x. if P x then [h x] else []) xs) = map h (filter P xs)"
  by (induction xs) simp_all

lemma length_le_one_const:
  assumes "distinct (map k xs)" and "\<And>x. x \<in> set xs \<Longrightarrow> k x = v"
  shows "length xs \<le> 1"
proof (cases xs)
  case Nil
  then show ?thesis by simp
next
  case (Cons a ys)
  show ?thesis
  proof (cases ys)
    case Nil
    with Cons show ?thesis by simp
  next
    case (Cons b zs)
    with \<open>xs = a # ys\<close> assms(2)[of a] assms(2)[of b] assms(1) show ?thesis by simp
  qed
qed

lemma length_le_one_cases: "length xs \<le> 1 \<Longrightarrow> xs = [] \<or> (\<exists>x. xs = [x])"
  by (cases xs) (auto simp: length_Suc_conv)

lemma match_player_le_one:
  assumes "unique_player_ids g"
  shows "match_player g A = [] \<or> (\<exists>p. match_player g A = [p])"
proof -
  have "distinct (map (\<lambda>n. player_id (snd n)) (match_player g A))"
    unfolding match_player_def using assms unfolding unique_player_ids_def
    by (rule distinct_map_filter)
  moreover have "\<And>n. n \<in> set (match_player g A) \<Longrightarrow> player_id (snd n) = A"
    by (simp add: match_player_def)
  ultimately have "length (match_player g A) \<le> 1" by (rule length_le_one_const)
  then show ?thesis by (rule length_le_one_cases)
qed

lemma friend_edges_distinct_dst:
  assumes "no_parallel_friendships g"
  shows "distinct (map dst (filter (\<lambda>e. src e = a \<and> is_FRIENDS_WITH (rel e)) (edges g)))"
proof -
  have eq: "filter (\<lambda>e. src e = a \<and> is_FRIENDS_WITH (rel e)) (edges g)
      = filter (\<lambda>e. src e = a) (filter (\<lambda>e. is_FRIENDS_WITH (rel e)) (edges g))"
    by (simp add: conj_commute)
  have "distinct (map (\<lambda>e. (src e, dst e))
          (filter (\<lambda>e. src e = a) (filter (\<lambda>e. is_FRIENDS_WITH (rel e)) (edges g))))"
    using assms unfolding no_parallel_friendships_def by (rule distinct_map_filter)
  then show ?thesis
    unfolding eq by (rule distinct_map_transfer) simp
qed

lemma player_at_distinct_ids:
  assumes "unique_player_ids g"
  shows "distinct (map (\<lambda>n. player_id (snd n)) (filter P (player_at g i)))"
  unfolding player_at_def
  using assms unfolding unique_player_ids_def by (intro distinct_map_filter)

lemma player_at_same_node:
  assumes u: "unique_player_ids g"
    and x: "x \<in> set (player_at g i)" and y: "y \<in> set (player_at g j)"
    and e: "player_id (snd x) = player_id (snd y)"
  shows "i = j"
proof -
  from x y have "x \<in> set (players g)" "y \<in> set (players g)" by (simp_all add: player_at_def)
  with u e have "x = y" by (intro player_unique[OF u])
  with x y show ?thesis by (simp add: player_at_def)
qed

lemma distinct_suggestion_paths:
  assumes u: "unique_player_ids g" and n: "no_parallel_friendships g"
  shows "distinct (map (\<lambda>(friend, s). (player_id (snd friend), player_id (snd s)))
                    (suggestion_paths g A))"
proof -
  from match_player_le_one[OF u, of A] show ?thesis
  proof
    assume "match_player g A = []"
    then show ?thesis by (simp add: suggestion_paths_def)
  next
    assume "\<exists>p. match_player g A = [p]"
    then obtain p where p: "match_player g A = [p]" ..
    define ok where "ok = (\<lambda>s :: node_id \<times> player.
        \<not> has_edge g (fst p) is_FRIENDS_WITH (fst s)
          \<and> \<not> has_edge g (fst p) is_BLOCKED (fst s)
          \<and> player_id (snd s) \<noteq> A)"
    define inner where "inner = (\<lambda>friend :: node_id \<times> player.
        concat (map (\<lambda>r2. if src r2 = fst friend \<and> is_FRIENDS_WITH (rel r2)
                          then map (Pair friend) (filter ok (player_at g (dst r2))) else [])
                  (edges g)))"
    define K where "K = (\<lambda>x :: (node_id \<times> player) \<times> (node_id \<times> player).
        (player_id (snd (fst x)), player_id (snd (snd x))))"
    have K: "(\<lambda>(friend, s). (player_id (snd friend), player_id (snd s))) = K"
      unfolding K_def by (rule ext) (simp add: split_beta)
    have paths: "suggestion_paths g A =
        concat (map (\<lambda>r1. if src r1 = fst p \<and> is_FRIENDS_WITH (rel r1)
                          then concat (map inner (player_at g (dst r1))) else [])
                  (edges g))"
      unfolding suggestion_paths_def inner_def ok_def p
      by (simp add: concat_map_if_singleton cong: if_cong)
    have inner_distinct: "distinct (map (\<lambda>x. player_id (snd (snd x))) (inner friend))" for friend
      unfolding inner_def
    proof (rule distinct_map_concat_map[where c = dst
          and Q = "\<lambda>r2. src r2 = fst friend \<and> is_FRIENDS_WITH (rel r2)"])
      show "distinct (map dst (filter (\<lambda>r2. src r2 = fst friend \<and> is_FRIENDS_WITH (rel r2)) (edges g)))"
        by (rule friend_edges_distinct_dst[OF n])
    next
      fix x assume "\<not> (src x = fst friend \<and> is_FRIENDS_WITH (rel x))"
      then show "(if src x = fst friend \<and> is_FRIENDS_WITH (rel x)
          then map (Pair friend) (filter ok (player_at g (dst x))) else []) = []" by auto
    next
      fix x assume q: "src x = fst friend \<and> is_FRIENDS_WITH (rel x)"
      have "distinct (map (\<lambda>n. player_id (snd n)) (filter ok (player_at g (dst x))))"
        by (rule player_at_distinct_ids[OF u])
      then show "distinct (map (\<lambda>x. player_id (snd (snd x)))
          (if src x = fst friend \<and> is_FRIENDS_WITH (rel x)
          then map (Pair friend) (filter ok (player_at g (dst x))) else []))"
        unfolding if_P[OF q] by (simp add: comp_def)
    next
      fix x y assume q: "src x = fst friend \<and> is_FRIENDS_WITH (rel x)"
        and q': "src y = fst friend \<and> is_FRIENDS_WITH (rel y)" and ne: "dst x \<noteq> dst y"
      have "set (map (\<lambda>x. player_id (snd (snd x)))
               (map (Pair friend) (filter ok (player_at g (dst x))))) \<inter>
            set (map (\<lambda>x. player_id (snd (snd x)))
               (map (Pair friend) (filter ok (player_at g (dst y))))) = {}"
      proof (rule equals0I)
        fix v
        assume v: "v \<in> set (map (\<lambda>x. player_id (snd (snd x)))
               (map (Pair friend) (filter ok (player_at g (dst x))))) \<inter>
            set (map (\<lambda>x. player_id (snd (snd x)))
               (map (Pair friend) (filter ok (player_at g (dst y)))))"
        from v obtain a where a: "a \<in> set (player_at g (dst x))" "v = player_id (snd a)"
          by auto
        from v obtain b where b: "b \<in> set (player_at g (dst y))" "v = player_id (snd b)"
          by auto
        from a b have "dst x = dst y" by (intro player_at_same_node[OF u, of a _ b]) simp_all
        with ne show False by simp
      qed
      then show "set (map (\<lambda>x. player_id (snd (snd x)))
          (if src x = fst friend \<and> is_FRIENDS_WITH (rel x)
          then map (Pair friend) (filter ok (player_at g (dst x))) else [])) \<inter>
        set (map (\<lambda>x. player_id (snd (snd x)))
          (if src y = fst friend \<and> is_FRIENDS_WITH (rel y)
          then map (Pair friend) (filter ok (player_at g (dst y))) else [])) = {}"
        unfolding if_P[OF q] if_P[OF q'] .
    qed
    have inner_first: "fst x = friend" if "x \<in> set (inner friend)" for x friend
      using that unfolding inner_def by (auto split: if_splits)
    have inner_K: "distinct (map K (inner f))" for f
    proof (rule distinct_map_transfer[OF inner_distinct[of f]])
      fix a b assume "a \<in> set (inner f)" "b \<in> set (inner f)" and "K a = K b"
      then show "player_id (snd (snd a)) = player_id (snd (snd b))" by (simp add: K_def)
    qed
    have block_key: "\<exists>f \<in> set (player_at g i). fst v = player_id (snd f)"
      if "v \<in> set (map K (concat (map inner (player_at g i))))" for v i
    proof -
      from that[unfolded set_map] obtain a
        where va: "v = K a" and "a \<in> set (concat (map inner (player_at g i)))"
        by (rule imageE)
      then obtain f where f: "f \<in> set (player_at g i)" and a: "a \<in> set (inner f)" by auto
      from inner_first[OF a] va have "fst v = player_id (snd f)" by (simp add: K_def)
      with f show ?thesis ..
    qed
    have block_distinct: "distinct (map K (concat (map inner (player_at g i))))" for i
    proof (rule distinct_map_concat_map[where c = "\<lambda>n. player_id (snd n)" and Q = "\<lambda>n. True"])
      show "distinct (map (\<lambda>n. player_id (snd n)) (filter (\<lambda>n. True) (player_at g i)))"
        by (rule player_at_distinct_ids[OF u])
    next
      fix x :: "node_id \<times> player" assume "\<not> True"
      then show "inner x = []" by simp
    next
      fix x show "distinct (map K (inner x))" by (rule inner_K)
    next
      fix x y :: "node_id \<times> player"
      assume ne: "player_id (snd x) \<noteq> player_id (snd y)"
      show "set (map K (inner x)) \<inter> set (map K (inner y)) = {}"
      proof (rule equals0I)
        fix v assume v: "v \<in> set (map K (inner x)) \<inter> set (map K (inner y))"
        from v obtain a where a: "a \<in> set (inner x)" "v = K a" by auto
        from v obtain b where b: "b \<in> set (inner y)" "v = K b" by auto
        from inner_first[OF a(1)] inner_first[OF b(1)] a(2) b(2)
        have "player_id (snd x) = player_id (snd y)" by (simp add: K_def)
        with ne show False by simp
      qed
    qed
    have "distinct (map K
        (concat (map (\<lambda>r1. if src r1 = fst p \<and> is_FRIENDS_WITH (rel r1)
                          then concat (map inner (player_at g (dst r1))) else [])
                  (edges g))))"
    proof (rule distinct_map_concat_map[where c = dst
          and Q = "\<lambda>r1. src r1 = fst p \<and> is_FRIENDS_WITH (rel r1)"])
      show "distinct (map dst (filter (\<lambda>r1. src r1 = fst p \<and> is_FRIENDS_WITH (rel r1)) (edges g)))"
        by (rule friend_edges_distinct_dst[OF n])
    next
      fix x assume "\<not> (src x = fst p \<and> is_FRIENDS_WITH (rel x))"
      then show "(if src x = fst p \<and> is_FRIENDS_WITH (rel x)
          then concat (map inner (player_at g (dst x))) else []) = []" by auto
    next
      fix x assume q: "src x = fst p \<and> is_FRIENDS_WITH (rel x)"
      show "distinct (map K
          (if src x = fst p \<and> is_FRIENDS_WITH (rel x)
           then concat (map inner (player_at g (dst x))) else []))"
        unfolding if_P[OF q] by (rule block_distinct)
    next
      fix x y assume q: "src x = fst p \<and> is_FRIENDS_WITH (rel x)"
        and q': "src y = fst p \<and> is_FRIENDS_WITH (rel y)" and ne: "dst x \<noteq> dst y"
      have "set (map K (concat (map inner (player_at g (dst x))))) \<inter>
          set (map K (concat (map inner (player_at g (dst y))))) = {}"
      proof (rule equals0I)
        fix v
        assume v: "v \<in> set (map K (concat (map inner (player_at g (dst x))))) \<inter>
            set (map K (concat (map inner (player_at g (dst y)))))"
        from v have "v \<in> set (map K (concat (map inner (player_at g (dst x)))))" by (rule IntD1)
        from block_key[OF this] obtain a where a: "a \<in> set (player_at g (dst x))"
          "fst v = player_id (snd a)" ..
        from v have "v \<in> set (map K (concat (map inner (player_at g (dst y)))))" by (rule IntD2)
        from block_key[OF this] obtain b where b: "b \<in> set (player_at g (dst y))"
          "fst v = player_id (snd b)" ..
        from a b have "dst x = dst y" by (intro player_at_same_node[OF u, of a _ b]) simp_all
        with ne show False by simp
      qed
      then show "set (map K
          (if src x = fst p \<and> is_FRIENDS_WITH (rel x)
           then concat (map inner (player_at g (dst x))) else [])) \<inter>
        set (map K
          (if src y = fst p \<and> is_FRIENDS_WITH (rel y)
           then concat (map inner (player_at g (dst y))) else [])) = {}"
        unfolding if_P[OF q] if_P[OF q'] .
    qed
    then show ?thesis unfolding paths K .
  qed
qed

lemma distinct_intermediate_friends_alt:
  "distinct_intermediate_friends g A X =
     length (remdups (map (\<lambda>x. player_id (snd (fst x)))
        (filter (\<lambda>x. player_id (snd (snd x)) = X) (suggestion_paths g A))))"
  unfolding distinct_intermediate_friends_def
  by (simp add: case_prod_unfold concat_map_if_singleton)

lemma count_paths_distinct_friends:
  assumes u: "unique_player_ids g" and n: "no_parallel_friendships g"
    and fs: "(friend, s) \<in> set (suggestion_paths g A)"
  shows "length (filter (\<lambda>(f, t). (player_id (snd t), username (snd t), status (snd t))
                          = (player_id (snd s), username (snd s), status (snd s)))
                  (suggestion_paths g A))
         = distinct_intermediate_friends g A (player_id (snd s))"
proof -
  define X where "X = player_id (snd s)"
  define L where "L = filter (\<lambda>x. player_id (snd (snd x)) = X) (suggestion_paths g A)"
  have s: "s \<in> set (players g)" by (rule in_suggestion_paths(1)[OF fs])
  have eq: "filter (\<lambda>(f, t). (player_id (snd t), username (snd t), status (snd t))
                          = (player_id (snd s), username (snd s), status (snd s)))
                  (suggestion_paths g A) = L"
    unfolding L_def
  proof (rule filter_cong[OF refl])
    fix x assume x: "x \<in> set (suggestion_paths g A)"
    obtain f t where ft: "x = (f, t)" by (cases x)
    from x ft have t: "t \<in> set (players g)" using in_suggestion_paths(1)[of f t g A] by simp
    have "player_id (snd t) = player_id (snd s) \<Longrightarrow> t = s"
      using player_unique[OF u t s] by simp
    then show "(case x of (f, t) \<Rightarrow> (player_id (snd t), username (snd t), status (snd t))
                          = (player_id (snd s), username (snd s), status (snd s)))
        = (player_id (snd (snd x)) = X)"
      unfolding ft X_def by auto
  qed
  have "distinct (map (\<lambda>x. (player_id (snd (fst x)), player_id (snd (snd x)))) (suggestion_paths g A))"
    using distinct_suggestion_paths[OF u n, of A] by (simp add: case_prod_unfold)
  then have "distinct (map (\<lambda>x. (player_id (snd (fst x)), player_id (snd (snd x)))) L)"
    unfolding L_def by (rule distinct_map_filter)
  then have d: "distinct (map (\<lambda>x. player_id (snd (fst x))) L)"
  proof (rule distinct_map_transfer)
    fix a b assume "a \<in> set L" "b \<in> set L"
      and "player_id (snd (fst a)) = player_id (snd (fst b))"
    then show "(player_id (snd (fst a)), player_id (snd (snd a)))
        = (player_id (snd (fst b)), player_id (snd (snd b)))"
      unfolding L_def by simp
  qed
  have "distinct_intermediate_friends g A X = length (remdups (map (\<lambda>x. player_id (snd (fst x))) L))"
    unfolding L_def by (rule distinct_intermediate_friends_alt)
  also have "\<dots> = length L" using d by (simp add: distinct_remdups_id)
  finally show ?thesis unfolding eq X_def by simp
qed

section \<open>Following\<close>

lemma players_follow_player [simp]: "players (snd (follow_player g A B now)) = players g"
  by (simp add: follow_player_def Let_def)

lemma match_player_follow_player [simp]:
  "match_player (snd (follow_player g A B now)) C = match_player g C"
  by (simp add: match_player_def)

lemma edges_follow_player:
  "match_player g A = [a] \<Longrightarrow> match_player g B = [b] \<Longrightarrow>
   edges (snd (follow_player g A B now)) = edges g @ [Edge (fst a) (fst b) (FOLLOWS now)]"
  by (simp add: follow_player_def)

lemma following_count_follow_player:
  assumes "match_player g A = [a]" "match_player g B = [b]"
  shows "following_count (snd (follow_player g A B now)) A B = Suc (following_count g A B)"
  using assms player_at_match[OF assms(2)]
  by (simp add: following_count_def get_following_def follow_player_def filter_concat filter_map
      comp_def cong: if_cong)

lemma following_count_unfollow_player:
  "following_count (snd (unfollow_player g A B)) A B = 0"
  apply (simp add: following_count_def get_following_def unfollow_player_def delete_edges_def filter_concat
      filter_map comp_def cong: if_cong)
  apply (auto simp: filter_empty_conv match_player_def player_at_def)
  done

lemma unfollow_player_found:
  assumes "match_player g A = [a]" "match_player g B = [b]"
    and "Edge (fst a) (fst b) (FOLLOWS t) \<in> set (edges g)"
  shows "fst (unfollow_player g A B)"
proof -
  let ?rows = "[f. follower \<leftarrow> match_player g A,
                  f \<leftarrow> edges g, src f = fst follower \<and> is_FOLLOWS (rel f),
                  following \<leftarrow> match_player g B, dst f = fst following]"
  have "Edge (fst a) (fst b) (FOLLOWS t) \<in> set ?rows"
    using assms by force
  then have "?rows \<noteq> []" by force
  then show ?thesis by (simp add: unfollow_player_def Let_def)
qed

text \<open>
  C9. \<^verbatim>\<open>follow_player\<close> is not deduplicated. When \<open>A\<close> and \<open>B\<close> each name one player node,
  every call \<^verbatim>\<open>follow_player(A, B)\<close> succeeds and makes \<^verbatim>\<open>get_following(A)\<close> list \<open>B\<close> once
  more than before, also when \<open>A\<close> follows \<open>B\<close> already: after two calls \<open>B\<close> is listed two
  times more than at the start. \<^verbatim>\<open>unfollow_player(A, B)\<close> then reports a deletion and
  leaves no entry for \<open>B\<close> in \<^verbatim>\<open>get_following(A)\<close>.
\<close>

theorem follow_player_not_deduplicated:
  assumes "length (match_player g A) = 1" and "length (match_player g B) = 1"
  shows "fst (follow_player g A B t1) \<noteq> None \<and>
         following_count (snd (follow_player g A B t1)) A B = following_count g A B + 1 \<and>
         following_count (snd (follow_player (snd (follow_player g A B t1)) A B t2)) A B
           = following_count g A B + 2 \<and>
         fst (unfollow_player (snd (follow_player (snd (follow_player g A B t1)) A B t2)) A B) \<and>
         following_count
           (snd (unfollow_player (snd (follow_player (snd (follow_player g A B t1)) A B t2)) A B))
           A B = 0"
proof -
  from assms obtain a b where a: "match_player g A = [a]" and b: "match_player g B = [b]"
    by (auto simp: length_one_iff)
  let ?g1 = "snd (follow_player g A B t1)"
  let ?g2 = "snd (follow_player ?g1 A B t2)"
  have a1: "match_player ?g1 A = [a]" and b1: "match_player ?g1 B = [b]"
    using a b by simp_all
  have a2: "match_player ?g2 A = [a]" and b2: "match_player ?g2 B = [b]"
    using a b by simp_all
  have r: "fst (follow_player g A B t1) \<noteq> None"
    using a b by (simp add: follow_player_def)
  have c1: "following_count ?g1 A B = following_count g A B + 1"
    using following_count_follow_player[OF a b] by simp
  have c2: "following_count ?g2 A B = following_count g A B + 2"
    using following_count_follow_player[OF a1 b1] c1 by simp
  have "Edge (fst a) (fst b) (FOLLOWS t2) \<in> set (edges ?g2)"
    using edges_follow_player[OF a1 b1] by simp
  then have u: "fst (unfollow_player ?g2 A B)"
    using unfollow_player_found[OF a2 b2] by blast
  show ?thesis
    using r c1 c2 u following_count_unfollow_player by blast
qed

theorem follow_player_not_deduplicated_witness:
  "length (match_player two_players ''A'') = 1 \<and> length (match_player two_players ''B'') = 1 \<and>
   following_count two_players ''A'' ''B'' = 0 \<and>
   map fo_player_id
     (get_following (snd (follow_player (snd (follow_player two_players ''A'' ''B'' 5)) ''A'' ''B'' 6))
        ''A'') = [''B'', ''B''] \<and>
   following_count (snd (follow_player (snd (follow_player two_players ''A'' ''B'' 5)) ''A'' ''B'' 6))
     ''A'' ''B'' = 2 \<and>
   get_following
     (snd (unfollow_player
        (snd (follow_player (snd (follow_player two_players ''A'' ''B'' 5)) ''A'' ''B'' 6))
        ''A'' ''B'')) ''A'' = []"
proof -
  have a: "length (match_player two_players ''A'') = 1" by code_simp
  have b: "length (match_player two_players ''B'') = 1" by code_simp
  have z: "following_count two_players ''A'' ''B'' = 0" by code_simp
  have l: "map fo_player_id
     (get_following (snd (follow_player (snd (follow_player two_players ''A'' ''B'' 5)) ''A'' ''B'' 6))
        ''A'') = [''B'', ''B'']" by code_simp
  have e: "get_following
     (snd (unfollow_player
        (snd (follow_player (snd (follow_player two_players ''A'' ''B'' 5)) ''A'' ''B'' 6))
        ''A'' ''B'')) ''A'' = []" by code_simp
  show ?thesis
    using follow_player_not_deduplicated[OF a b, of 5 6] a b z l e by simp
qed

text \<open>
  C3. After \<^verbatim>\<open>block_player(A, B)\<close>, \<^verbatim>\<open>get_friends(A)\<close> does not list \<open>B\<close> and
  \<^verbatim>\<open>get_friends(B)\<close> does not list \<open>A\<close>, whatever the graph was before, so also when the two
  had \<^verbatim>\<open>FRIENDS_WITH\<close> edges in both directions.
\<close>

theorem block_player_removes_friendship:
  "B \<notin> fr_player_id ` set (get_friends (snd (block_player g A B rsn now)) A) \<and>
   A \<notin> fr_player_id ` set (get_friends (snd (block_player g A B rsn now)) B)"
proof -
  let ?g' = "snd (block_player g A B rsn now)"
  have mp: "\<And>C. match_player ?g' C = match_player g C"
    by (rule match_player_cong) simp
  have pa: "\<And>i. player_at ?g' i = player_at g i"
    by (rule player_at_cong) simp
  have no_edge: "\<not> (src f = fst a \<and> dst f = fst b \<or> src f = fst b \<and> dst f = fst a)"
    if "f \<in> set (edges ?g')" "is_FRIENDS_WITH (rel f)"
      "a \<in> set (match_player g A)" "b \<in> set (match_player g B)" for f a b
    using friends_edge_block_player(2)[OF that] .
  have 1: "B \<notin> fr_player_id ` set (get_friends ?g' A)"
  proof
    assume "B \<in> fr_player_id ` set (get_friends ?g' A)"
    then obtain p f n where p: "p \<in> set (match_player g A)" and f: "f \<in> set (edges ?g')"
      and sf: "src f = fst p" "is_FRIENDS_WITH (rel f)" and n: "n \<in> set (player_at g (dst f))"
      and nB: "player_id (snd n) = B"
      unfolding in_get_friends mp pa by blast
    from n nB have nm: "n \<in> set (match_player g B)" and d: "dst f = fst n"
      by (auto simp: player_at_def match_player_def)
    from no_edge[OF f sf(2) p nm] sf(1) d show False by simp
  qed
  have 2: "A \<notin> fr_player_id ` set (get_friends ?g' B)"
  proof
    assume "A \<in> fr_player_id ` set (get_friends ?g' B)"
    then obtain p f n where p: "p \<in> set (match_player g B)" and f: "f \<in> set (edges ?g')"
      and sf: "src f = fst p" "is_FRIENDS_WITH (rel f)" and n: "n \<in> set (player_at g (dst f))"
      and nA: "player_id (snd n) = A"
      unfolding in_get_friends mp pa by blast
    from n nA have nm: "n \<in> set (match_player g A)" and d: "dst f = fst n"
      by (auto simp: player_at_def match_player_def)
    from no_edge[OF f sf(2) nm p] sf(1) d show False by simp
  qed
  from 1 2 show ?thesis ..
qed

theorem block_player_removes_friendship_witness:
  "map fr_player_id (get_friends two_friends ''A'') = [''B''] \<and>
   map fr_player_id (get_friends two_friends ''B'') = [''A''] \<and>
   ''B'' \<notin> fr_player_id ` set (get_friends (snd (block_player two_friends ''A'' ''B'' None 4)) ''A'') \<and>
   ''A'' \<notin> fr_player_id ` set (get_friends (snd (block_player two_friends ''A'' ''B'' None 4)) ''B'')"
proof -
  have 1: "map fr_player_id (get_friends two_friends ''A'') = [''B'']" by code_simp
  have 2: "map fr_player_id (get_friends two_friends ''B'') = [''A'']" by code_simp
  from 1 2 block_player_removes_friendship[of "''B''" two_friends "''A''" None 4]
  show ?thesis by blast
qed

text \<open>
  C2, as the code has it. \<^verbatim>\<open>block_player\<close> is not idempotent. When \<open>A\<close> and \<open>B\<close> each name
  one player node and \<open>A\<close> blocks \<open>B\<close> already, a second \<^verbatim>\<open>block_player(A, B)\<close> succeeds
  without error and creates one more \<^verbatim>\<open>BLOCKED\<close> edge, so that \<^verbatim>\<open>get_blocked_players(A)\<close>
  lists \<open>B\<close> once more than after the first call.
\<close>

theorem block_player_twice_duplicates:
  assumes "length (match_player g A) = 1" and "length (match_player g B) = 1"
  shows "fst (block_player (snd (block_player g A B r1 t1)) A B r2 t2) \<noteq> None \<and>
         blocked_count (snd (block_player (snd (block_player g A B r1 t1)) A B r2 t2)) A B
           = blocked_count (snd (block_player g A B r1 t1)) A B + 1"
proof -
  from assms obtain a b where a: "match_player g A = [a]" and b: "match_player g B = [b]"
    by (auto simp: length_one_iff)
  let ?g1 = "snd (block_player g A B r1 t1)"
  have a1: "match_player ?g1 A = [a]" and b1: "match_player ?g1 B = [b]"
    using a b by (simp_all add: match_player_cong[of ?g1 g])
  have "friendship_edges ?g1 (fst a) (fst b) = []"
    using no_friendship_after_block[of a g A b B] a b by simp
  from block_player_again[OF a1 b1 this, of r2 t2] blocked_count_append[OF a1 b1, of t2 r2]
  show ?thesis by simp
qed

theorem block_player_twice_duplicates_witness:
  "length (match_player two_friends ''A'') = 1 \<and> length (match_player two_friends ''B'') = 1 \<and>
   map blocked_player_id
     (get_blocked_players
        (snd (block_player (snd (block_player two_friends ''A'' ''B'' None 4)) ''A'' ''B'' None 5))
        ''A'') = [''B'', ''B'', ''B'']"
proof -
  have a: "length (match_player two_friends ''A'') = 1" by code_simp
  have b: "length (match_player two_friends ''B'') = 1" by code_simp
  have c: "map blocked_player_id
     (get_blocked_players
        (snd (block_player (snd (block_player two_friends ''A'' ''B'' None 4)) ''A'' ''B'' None 5))
        ''A'') = [''B'', ''B'', ''B'']" by code_simp
  from block_player_twice_duplicates[OF a b, of None 4 None 5] a b c show ?thesis by blast
qed

text \<open>
  The claim as stated fails: with two players and no edge, the second call (same reason,
  same instant) leaves \<open>B\<close> listed twice, where the first call left it listed once.
\<close>

theorem block_player_not_idempotent:
  "fst (block_player (snd (block_player two_players ''A'' ''B'' None 5)) ''A'' ''B'' None 5) \<noteq> None \<and>
   map blocked_player_id
     (get_blocked_players (snd (block_player two_players ''A'' ''B'' None 5)) ''A'') = [''B''] \<and>
   map blocked_player_id
     (get_blocked_players
        (snd (block_player (snd (block_player two_players ''A'' ''B'' None 5)) ''A'' ''B'' None 5))
        ''A'') = [''B'', ''B''] \<and>
   get_blocked_players
     (snd (block_player (snd (block_player two_players ''A'' ''B'' None 5)) ''A'' ''B'' None 5))
     ''A''
   \<noteq> get_blocked_players (snd (block_player two_players ''A'' ''B'' None 5)) ''A''"
  by code_simp

text \<open>
  C4, as the code has it. \<^verbatim>\<open>send_friend_request\<close> has no guard on the relationship state.
  The request fails, with status 400 and the graph unchanged, exactly when no player node
  has the sender's or none has the receiver's \<^verbatim>\<open>player_id\<close>. In every other case, whatever
  edges exist already and also when sender and receiver are the same, it succeeds, creates
  one \<^verbatim>\<open>SENT_REQUEST\<close> edge per matched pair of nodes, and the receiver's pending requests
  then list the sender.
\<close>

theorem send_friend_request_fails_only_without_nodes:
  "(match_player g F = [] \<or> match_player g T = [] \<longrightarrow>
      send_friend_request_route g F T msg now
        = (Inl (HTTPException 400 ''Failed to send friend request''), g)) \<and>
   (match_player g F \<noteq> [] \<and> match_player g T \<noteq> [] \<longrightarrow>
      \<not> isl (fst (send_friend_request_route g F T msg now)) \<and>
      length (edges (snd (send_friend_request_route g F T msg now)))
        = length (edges g) + length (match_player g F) * length (match_player g T) \<and>
      F \<in> from_player_id ` set (get_pending_requests (snd (send_friend_request_route g F T msg now)) T))"
proof (intro conjI impI)
  let ?m = "case msg of None \<Rightarrow> [] | Some m \<Rightarrow> m"
  let ?g' = "snd (send_friend_request g F T ?m now)"
  have route: "snd (send_friend_request_route g F T msg now) = ?g'"
    by (simp add: send_friend_request_route_def handle_def split: option.splits)
  {
    assume "match_player g F = [] \<or> match_player g T = []"
    from send_friend_request_no_rows[OF this, of ?m now]
    show "send_friend_request_route g F T msg now
        = (Inl (HTTPException 400 ''Failed to send friend request''), g)"
      by (simp add: send_friend_request_route_def handle_def)
  }
  {
    assume ne: "match_player g F \<noteq> [] \<and> match_player g T \<noteq> []"
    then have "fst (send_friend_request g F T ?m now) \<noteq> None"
      using send_friend_request_rows by blast
    then show "\<not> isl (fst (send_friend_request_route g F T msg now))"
      by (auto simp: send_friend_request_route_def handle_def split: option.splits)
    show "length (edges (snd (send_friend_request_route g F T msg now)))
        = length (edges g) + length (match_player g F) * length (match_player g T)"
      unfolding route edges_send_friend_request
      by (simp add: length_concat comp_def sum_list_triv)
    from ne obtain f t where f: "f \<in> set (match_player g F)" and t: "t \<in> set (match_player g T)"
      by (meson last_in_set)
    have e: "Edge (fst f) (fst t) (SENT_REQUEST now ?m) \<in> set (edges ?g')"
      unfolding edges_send_friend_request using f t by auto
    have mp: "match_player ?g' T = match_player g T"
      by (rule match_player_cong) simp
    have pa: "player_at ?g' (fst f) = player_at g (fst f)"
      by (rule player_at_cong) simp
    show "F \<in> from_player_id ` set (get_pending_requests (snd (send_friend_request_route g F T msg now)) T)"
      unfolding route in_get_pending_requests mp
      apply (rule bexI[OF _ t])
      apply (rule bexI[OF _ e])
      using match_player_at[OF f] match_player_id[OF f] pa
      apply auto
      done
  }
qed

theorem send_friend_request_fails_only_without_nodes_witness:
  "match_player two_players ''A'' \<noteq> [] \<and> match_player two_players ''B'' \<noteq> [] \<and>
   \<not> isl (fst (send_friend_request_route two_players ''A'' ''B'' (Some ''hi'') 2)) \<and>
   length (edges (snd (send_friend_request_route two_players ''A'' ''B'' (Some ''hi'') 2))) = 1 \<and>
   ''A'' \<in> from_player_id `
     set (get_pending_requests (snd (send_friend_request_route two_players ''A'' ''B'' (Some ''hi'') 2))
            ''B'') \<and>
   match_player two_players ''Z'' = [] \<and>
   send_friend_request_route two_players ''Z'' ''B'' None 2
     = (Inl (HTTPException 400 ''Failed to send friend request''), two_players)"
proof -
  have a: "match_player two_players ''A'' \<noteq> []" by code_simp
  have b: "match_player two_players ''B'' \<noteq> []" by code_simp
  have z: "match_player two_players ''Z'' = []" by code_simp
  have e: "length (edges two_players) = 0" by code_simp
  have la: "length (match_player two_players ''A'') = 1" by code_simp
  have lb: "length (match_player two_players ''B'') = 1" by code_simp
  from send_friend_request_fails_only_without_nodes[of two_players "''A''" "''B''" "Some ''hi''" 2]
    send_friend_request_fails_only_without_nodes[of two_players "''Z''" "''B''" None 2]
    a b z e la lb
  show ?thesis by simp
qed

text \<open>
  The claim as stated fails in each of its three cases: a request to oneself, a request
  against a pending request of the other direction, and a request to a player who has
  blocked the sender all succeed and create the edge.
\<close>

theorem send_friend_request_unguarded:
  "\<not> isl (fst (send_friend_request_route two_players ''A'' ''A'' None 5)) \<and>
   edges (snd (send_friend_request_route two_players ''A'' ''A'' None 5))
     = [Edge 0 0 (SENT_REQUEST 5 [])] \<and>
   \<not> isl (fst (send_friend_request_route
                 (snd (send_friend_request two_players ''B'' ''A'' ''first'' 4)) ''A'' ''B'' None 5)) \<and>
   edges (snd (send_friend_request_route
                 (snd (send_friend_request two_players ''B'' ''A'' ''first'' 4)) ''A'' ''B'' None 5))
     = [Edge 1 0 (SENT_REQUEST 4 ''first''), Edge 0 1 (SENT_REQUEST 5 [])] \<and>
   \<not> isl (fst (send_friend_request_route
                 (snd (block_player two_players ''B'' ''A'' None 4)) ''A'' ''B'' None 5)) \<and>
   edges (snd (send_friend_request_route
                 (snd (block_player two_players ''B'' ''A'' None 4)) ''A'' ''B'' None 5))
     = [Edge 1 0 (BLOCKED 4 None), Edge 0 1 (SENT_REQUEST 5 [])]"
  by code_simp

text \<open>
  C1, as the code has it. When \<open>A\<close> and \<open>B\<close> each name at least one player node,
  \<^verbatim>\<open>send_friend_request(A, B)\<close> followed by \<^verbatim>\<open>accept_friend_request(A, B)\<close> succeeds;
  afterwards \<^verbatim>\<open>get_friends(A)\<close> lists \<open>B\<close>, \<^verbatim>\<open>get_friends(B)\<close> lists \<open>A\<close>, and no request
  from \<open>A\<close> is pending at \<open>B\<close>. A request of the other direction is not touched: for
  distinct \<open>A\<close> and \<open>B\<close> (in a store with distinct node identities) a request from \<open>B\<close> is
  pending at \<open>A\<close> afterwards exactly if one was pending before.
\<close>

theorem send_then_accept:
  assumes "match_player g A \<noteq> []" and "match_player g B \<noteq> []"
  shows "fst (accept_friend_request (snd (send_friend_request g A B msg t1)) A B t2) \<noteq> None \<and>
    B \<in> fr_player_id ` set (get_friends
          (snd (accept_friend_request (snd (send_friend_request g A B msg t1)) A B t2)) A) \<and>
    A \<in> fr_player_id ` set (get_friends
          (snd (accept_friend_request (snd (send_friend_request g A B msg t1)) A B t2)) B) \<and>
    A \<notin> from_player_id ` set (get_pending_requests
          (snd (accept_friend_request (snd (send_friend_request g A B msg t1)) A B t2)) B) \<and>
    (A \<noteq> B \<and> distinct (map fst (players g)) \<longrightarrow>
       (B \<in> from_player_id ` set (get_pending_requests
          (snd (accept_friend_request (snd (send_friend_request g A B msg t1)) A B t2)) A))
       = (B \<in> from_player_id ` set (get_pending_requests g A)))"
proof -
  let ?g1 = "snd (send_friend_request g A B msg t1)"
  let ?g2 = "snd (accept_friend_request ?g1 A B t2)"
  have p1: "players ?g1 = players g" by simp
  have p2: "players ?g2 = players g" by simp
  have mp1: "\<And>C. match_player ?g1 C = match_player g C" by (rule match_player_cong) simp
  have mp2: "\<And>C. match_player ?g2 C = match_player g C" by (rule match_player_cong) simp
  have pa2: "\<And>i. player_at ?g2 i = player_at g i" by (rule player_at_cong) simp
  from assms obtain a b where a: "a \<in> set (match_player g A)" and b: "b \<in> set (match_player g B)"
    by (meson last_in_set)
  let ?r = "Edge (fst a) (fst b) (SENT_REQUEST t1 msg)"
  have r: "?r \<in> set (edges ?g1)" unfolding in_edges_send using a b by blast
  have a1: "a \<in> set (match_player ?g1 A)" and b1: "b \<in> set (match_player ?g1 B)"
    using a b by (simp_all add: mp1)
  have ab: "Edge (fst a) (fst b) (FRIENDS_WITH t2 None) \<in> set (edges ?g2)"
    by (rule accept_creates(1)[OF a1 b1 r]) simp_all
  have ba: "Edge (fst b) (fst a) (FRIENDS_WITH t2 None) \<in> set (edges ?g2)"
    by (rule accept_creates(2)[OF a1 b1 r]) simp_all
  have 1: "fst (accept_friend_request ?g1 A B t2) \<noteq> None"
    by (rule accept_creates(3)[OF a1 b1 r]) simp_all
  have 2: "B \<in> fr_player_id ` set (get_friends ?g2 A)"
    unfolding in_get_friends mp2 pa2
    using a ab match_player_at[OF b] match_player_id[OF b]
    by (intro bexI[of _ a] bexI[of _ "Edge (fst a) (fst b) (FRIENDS_WITH t2 None)"] conjI
          bexI[of _ b]) simp_all
  have 3: "A \<in> fr_player_id ` set (get_friends ?g2 B)"
    unfolding in_get_friends mp2 pa2
    using b ba match_player_at[OF a] match_player_id[OF a]
    by (intro bexI[of _ b] bexI[of _ "Edge (fst b) (fst a) (FRIENDS_WITH t2 None)"] conjI
          bexI[of _ a]) simp_all
  have 4: "A \<notin> from_player_id ` set (get_pending_requests ?g2 B)"
  proof
    assume "A \<in> from_player_id ` set (get_pending_requests ?g2 B)"
    then obtain to e n where to: "to \<in> set (match_player g B)" and e: "e \<in> set (edges ?g2)"
      and de: "dst e = fst to" and se: "is_SENT_REQUEST (rel e)"
      and n: "n \<in> set (player_at g (src e))" and nA: "player_id (snd n) = A"
      unfolding in_get_pending_requests mp2 pa2 by blast
    from n nA have "n \<in> set (match_player g A)" and "src e = fst n"
      by (simp_all add: match_player_iff player_at_iff)
    then have "src e \<in> fst ` set (match_player ?g1 A)" "dst e \<in> fst ` set (match_player ?g1 B)"
      using to de by (simp_all add: mp1)
    with e se show False unfolding in_edges_accept by auto
  qed
  have 5: "(B \<in> from_player_id ` set (get_pending_requests ?g2 A))
       = (B \<in> from_player_id ` set (get_pending_requests g A))"
    if neq: "A \<noteq> B" and d: "distinct (map fst (players g))"
  proof -
    have disjoint: "fst x \<noteq> fst y"
      if "x \<in> set (match_player g A)" "y \<in> set (match_player g B)" for x y
    proof
      assume "fst x = fst y"
      with that node_unique[OF d, of x y] have "x = y" by (simp add: match_player_iff)
      with that neq show False by (simp add: match_player_iff)
    qed
    have keep: "e \<in> set (edges ?g2) \<longleftrightarrow> e \<in> set (edges g)"
      if se: "is_SENT_REQUEST (rel e)" and to: "to \<in> set (match_player g A)" "dst e = fst to"
      for e to
    proof -
      have not_bound: "dst e \<notin> fst ` set (match_player ?g1 B)"
        using disjoint[OF to(1)] to(2) by (auto simp: mp1)
      have not_new: "\<not> (\<exists>a \<in> set (match_player g A). \<exists>b \<in> set (match_player g B).
          e = Edge (fst a) (fst b) (SENT_REQUEST t1 msg))"
      proof
        assume "\<exists>a \<in> set (match_player g A). \<exists>b \<in> set (match_player g B).
          e = Edge (fst a) (fst b) (SENT_REQUEST t1 msg)"
        then obtain b' where "b' \<in> set (match_player g B)" "dst e = fst b'" by auto
        with disjoint[OF to(1), of b'] to(2) show False by simp
      qed
      have "e \<in> set (edges ?g2) \<longleftrightarrow> e \<in> set (edges ?g1)"
        unfolding in_edges_accept[of e ?g1] using se not_bound by auto
      also have "\<dots> \<longleftrightarrow> e \<in> set (edges g)"
        unfolding in_edges_send using not_new by blast
      finally show ?thesis .
    qed
    show ?thesis
      unfolding in_get_pending_requests mp2 pa2
    proof
      assume "\<exists>to\<in>set (match_player g A). \<exists>r\<in>set (edges ?g2).
        dst r = fst to \<and> is_SENT_REQUEST (rel r) \<and>
        (\<exists>n\<in>set (player_at g (src r)). player_id (snd n) = B)"
      then obtain to r where to: "to \<in> set (match_player g A)" and r: "r \<in> set (edges ?g2)"
        and rest: "dst r = fst to \<and> is_SENT_REQUEST (rel r) \<and>
        (\<exists>n\<in>set (player_at g (src r)). player_id (snd n) = B)" by blast
      from rest keep[of r to] to r have "r \<in> set (edges g)" by simp
      with to rest show "\<exists>to\<in>set (match_player g A). \<exists>r\<in>set (edges g).
        dst r = fst to \<and> is_SENT_REQUEST (rel r) \<and>
        (\<exists>n\<in>set (player_at g (src r)). player_id (snd n) = B)" by blast
    next
      assume "\<exists>to\<in>set (match_player g A). \<exists>r\<in>set (edges g).
        dst r = fst to \<and> is_SENT_REQUEST (rel r) \<and>
        (\<exists>n\<in>set (player_at g (src r)). player_id (snd n) = B)"
      then obtain to r where to: "to \<in> set (match_player g A)" and r: "r \<in> set (edges g)"
        and rest: "dst r = fst to \<and> is_SENT_REQUEST (rel r) \<and>
        (\<exists>n\<in>set (player_at g (src r)). player_id (snd n) = B)" by blast
      from rest keep[of r to] to r have "r \<in> set (edges ?g2)" by simp
      with to rest show "\<exists>to\<in>set (match_player g A). \<exists>r\<in>set (edges ?g2).
        dst r = fst to \<and> is_SENT_REQUEST (rel r) \<and>
        (\<exists>n\<in>set (player_at g (src r)). player_id (snd n) = B)" by blast
    qed
  qed
  show ?thesis
  proof (intro conjI impI)
    show "fst (accept_friend_request ?g1 A B t2) \<noteq> None" by (rule 1)
    show "B \<in> fr_player_id ` set (get_friends ?g2 A)" by (rule 2)
    show "A \<in> fr_player_id ` set (get_friends ?g2 B)" by (rule 3)
    show "A \<notin> from_player_id ` set (get_pending_requests ?g2 B)" by (rule 4)
    assume h: "A \<noteq> B \<and> distinct (map fst (players g))"
    from h have h1: "A \<noteq> B" and h2: "distinct (map fst (players g))" by simp_all
    show "(B \<in> from_player_id ` set (get_pending_requests ?g2 A))
       = (B \<in> from_player_id ` set (get_pending_requests g A))" by (rule 5[OF h1 h2])
  qed
qed

theorem send_then_accept_witness:
  "match_player two_players ''A'' \<noteq> [] \<and> match_player two_players ''B'' \<noteq> [] \<and>
   ''A'' \<noteq> ''B'' \<and> distinct (map fst (players two_players)) \<and>
   get_pending_requests two_players ''A'' = [] \<and>
   ''B'' \<in> fr_player_id ` set (get_friends two_friends ''A'') \<and>
   ''A'' \<in> fr_player_id ` set (get_friends two_friends ''B'') \<and>
   ''A'' \<notin> from_player_id ` set (get_pending_requests two_friends ''B'') \<and>
   ''B'' \<notin> from_player_id ` set (get_pending_requests two_friends ''A'')"
proof -
  have a: "match_player two_players ''A'' \<noteq> []" by code_simp
  have b: "match_player two_players ''B'' \<noteq> []" by code_simp
  have n: "''A'' \<noteq> ''B''" by simp
  have d: "distinct (map fst (players two_players))" by code_simp
  have p: "get_pending_requests two_players ''A'' = []" by code_simp
  from send_then_accept[OF a b, of "''hi''" 2 3] n d p
  show ?thesis unfolding two_friends_def[symmetric] using a b by simp
qed

text \<open>
  The claim as stated fails when \<open>B\<close> had sent \<open>A\<close> a request before: the two calls
  succeed, and the \<^verbatim>\<open>SENT_REQUEST\<close> edge from \<open>B\<close> to \<open>A\<close> is still there.
\<close>

theorem reverse_request_survives_accept:
  "map from_player_id
     (get_pending_requests
        (snd (accept_friend_request
           (snd (send_friend_request
              (snd (send_friend_request two_players ''B'' ''A'' ''first'' 2))
              ''A'' ''B'' ''second'' 3))
           ''A'' ''B'' 4))
        ''A'') = [''B''] \<and>
   edges (snd (accept_friend_request
           (snd (send_friend_request
              (snd (send_friend_request two_players ''B'' ''A'' ''first'' 2))
              ''A'' ''B'' ''second'' 3))
           ''A'' ''B'' 4))
     = [Edge 1 0 (SENT_REQUEST 2 ''first''), Edge 0 1 (FRIENDS_WITH 4 None),
        Edge 1 0 (FRIENDS_WITH 4 None)]"
  by code_simp

text \<open>
  C10. \<^verbatim>\<open>edit_message(M, c)\<close> changes nothing but messages: players, conversations, parties,
  clans, all edges (so every \<^verbatim>\<open>SENT\<close> and \<^verbatim>\<open>CONTAINS\<close> edge) and the identity counter are
  as before. Each message node keeps its identity, its \<^verbatim>\<open>message_id\<close> and its \<^verbatim>\<open>timestamp\<close>,
  and is either unchanged or has \<^verbatim>\<open>message_id\<close> \<open>M\<close> and now carries the new content, the
  flag \<^verbatim>\<open>edited\<close> set and \<^verbatim>\<open>edited_at\<close> the time of the statement. When the call returns a
  record, a message with that \<^verbatim>\<open>message_id\<close> has been rewritten in this way.
\<close>

theorem edit_message_frame:
  "players (snd (edit_message g M c now)) = players g \<and>
   conversations (snd (edit_message g M c now)) = conversations g \<and>
   parties (snd (edit_message g M c now)) = parties g \<and>
   clans (snd (edit_message g M c now)) = clans g \<and>
   edges (snd (edit_message g M c now)) = edges g \<and>
   next_id (snd (edit_message g M c now)) = next_id g \<and>
   list_all2
     (\<lambda>n n'. fst n' = fst n \<and> message_id (snd n') = message_id (snd n) \<and>
              timestamp (snd n') = timestamp (snd n) \<and>
              (n' = n \<or>
               message_id (snd n) = M \<and> content (snd n') = c \<and> edited (snd n') \<and>
               edited_at (snd n') = Some now))
     (messages g) (messages (snd (edit_message g M c now))) \<and>
   (fst (edit_message g M c now) \<noteq> None \<longrightarrow>
      (\<exists>n \<in> set (match_message g M).
         (fst n, (snd n)\<lparr>content := c, edited := True, edited_at := Some now\<rparr>)
           \<in> set (messages (snd (edit_message g M c now)))))"
proof -
  obtain S where g': "snd (edit_message g M c now) =
       g\<lparr>messages := map (\<lambda>n. if n \<in> S
                then (fst n, (snd n)\<lparr>content := c, edited := True, edited_at := Some now\<rparr>)
                else n) (messages g)\<rparr>"
    and S: "S = {n \<in> set (match_message g M).
          (\<exists>s \<in> set (edges g). dst s = fst n \<and> is_SENT (rel s) \<and> player_at g (src s) \<noteq> []) \<and>
          (\<exists>k \<in> set (edges g). dst k = fst n \<and> is_CONTAINS (rel k) \<and>
             conversation_at g (src k) \<noteq> [])}"
    and none: "fst (edit_message g M c now) = None \<longleftrightarrow> S = {}"
    by (rule edit_message_rows[of g M c now])
  have in_S: "n \<in> S \<Longrightarrow> message_id (snd n) = M \<and> n \<in> set (messages g)" for n
    unfolding S by (simp add: match_message_def)
  have frame: "list_all2
     (\<lambda>n n'. fst n' = fst n \<and> message_id (snd n') = message_id (snd n) \<and>
              timestamp (snd n') = timestamp (snd n) \<and>
              (n' = n \<or>
               message_id (snd n) = M \<and> content (snd n') = c \<and> edited (snd n') \<and>
               edited_at (snd n') = Some now))
     (messages g) (messages (snd (edit_message g M c now)))"
    unfolding g' using in_S by (simp add: list_all2_map2 list_all2_same)
  have changed: "\<exists>n \<in> set (match_message g M).
         (fst n, (snd n)\<lparr>content := c, edited := True, edited_at := Some now\<rparr>)
           \<in> set (messages (snd (edit_message g M c now)))"
    if "fst (edit_message g M c now) \<noteq> None"
  proof -
    from that none obtain n where n: "n \<in> S" by auto
    with in_S[OF n] have "(fst n, (snd n)\<lparr>content := c, edited := True, edited_at := Some now\<rparr>)
           \<in> set (messages (snd (edit_message g M c now)))"
      unfolding g' by (auto simp: image_iff intro!: bexI[of _ n])
    moreover from n have "n \<in> set (match_message g M)" unfolding S by simp
    ultimately show ?thesis by blast
  qed
  show ?thesis
    using frame changed by (simp add: g')
qed

theorem edit_message_frame_witness:
  "fst (edit_message one_message ''m1'' ''bye'' 9) \<noteq> None \<and>
   messages one_message
     = [(3, \<lparr>message_id = ''m1'', content = ''hello'', timestamp = 4, edited = False,
              edited_at = None\<rparr>)] \<and>
   messages (snd (edit_message one_message ''m1'' ''bye'' 9))
     = [(3, \<lparr>message_id = ''m1'', content = ''bye'', timestamp = 4, edited = True,
              edited_at = Some 9\<rparr>)] \<and>
   edges (snd (edit_message one_message ''m1'' ''bye'' 9))
     = [Edge 0 2 (MEMBER_OF 3 ''member'' False), Edge 1 2 (MEMBER_OF 3 ''member'' False),
        Edge 0 3 SENT, Edge 2 3 CONTAINS] \<and>
   conversations (snd (edit_message one_message ''m1'' ''bye'' 9)) = conversations one_message"
proof -
  have 1: "fst (edit_message one_message ''m1'' ''bye'' 9) \<noteq> None" by code_simp
  have 2: "messages one_message
     = [(3, \<lparr>message_id = ''m1'', content = ''hello'', timestamp = 4, edited = False,
              edited_at = None\<rparr>)]" by code_simp
  have 3: "messages (snd (edit_message one_message ''m1'' ''bye'' 9))
     = [(3, \<lparr>message_id = ''m1'', content = ''bye'', timestamp = 4, edited = True,
              edited_at = Some 9\<rparr>)]" by code_simp
  have 4: "edges one_message
     = [Edge 0 2 (MEMBER_OF 3 ''member'' False), Edge 1 2 (MEMBER_OF 3 ''member'' False),
        Edge 0 3 SENT, Edge 2 3 CONTAINS]" by code_simp
  from edit_message_frame[of one_message "''m1''" "''bye''" 9] 1 2 3 4
  show ?thesis by simp
qed

text \<open>
  C8, as the code has it. \<^verbatim>\<open>send_message\<close> does not look at membership. It fails, with
  status 400 and the graph unchanged, exactly when no conversation node has the given
  \<^verbatim>\<open>conversation_id\<close> or no player node the sender's \<^verbatim>\<open>player_id\<close>. Otherwise, member or not,
  the one statement creates the message with a \<^verbatim>\<open>SENT\<close> edge from the sender and a
  \<^verbatim>\<open>CONTAINS\<close> edge from the conversation and sets \<^verbatim>\<open>last_message_at\<close> of the conversation
  to the time of the statement, leaving every other conversation as it was.
\<close>

theorem send_message_ignores_membership:
  "(match_conversation g C = [] \<or> match_player g S = [] \<longrightarrow>
      send_message_route g C S c mid now
        = (Inl (HTTPException 400 ''Failed to send message''), g)) \<and>
   (match_conversation g C \<noteq> [] \<and> match_player g S \<noteq> [] \<longrightarrow>
      \<not> isl (fst (send_message_route g C S c mid now)) \<and>
      (next_id g, \<lparr>message_id = mid, content = c, timestamp = now, edited = False,
                    edited_at = None\<rparr>)
        \<in> set (messages (snd (send_message_route g C S c mid now))) \<and>
      (\<exists>s \<in> set (match_player g S).
         Edge (fst s) (next_id g) SENT \<in> set (edges (snd (send_message_route g C S c mid now)))) \<and>
      (\<exists>cv \<in> set (match_conversation g C).
         Edge (fst cv) (next_id g) CONTAINS
           \<in> set (edges (snd (send_message_route g C S c mid now)))) \<and>
      conversations (snd (send_message_route g C S c mid now))
        = map (\<lambda>n. if conversation_id (snd n) = C
                     then (fst n, (snd n)\<lparr>last_message_at := Some now\<rparr>) else n)
            (conversations g))"
proof (intro conjI impI)
  have route: "snd (send_message_route g C S c mid now) = snd (send_message g C S c mid now)"
    by (simp add: send_message_route_def handle_def split: option.splits)
  {
    assume "match_conversation g C = [] \<or> match_player g S = []"
    from send_message_no_rows[OF this, of c mid now]
    show "send_message_route g C S c mid now
        = (Inl (HTTPException 400 ''Failed to send message''), g)"
      by (simp add: send_message_route_def handle_def)
  }
  {
    assume ne: "match_conversation g C \<noteq> [] \<and> match_player g S \<noteq> []"
    then obtain cv cvs s ss where cv: "match_conversation g C = cv # cvs"
      and s: "match_player g S = s # ss"
      by (meson list.exhaust)
    from send_message_first_row(1)[OF cv s, of c mid now]
    show "\<not> isl (fst (send_message_route g C S c mid now))"
      by (auto simp: send_message_route_def handle_def split: option.splits)
    show "(next_id g, \<lparr>message_id = mid, content = c, timestamp = now, edited = False,
                    edited_at = None\<rparr>)
        \<in> set (messages (snd (send_message_route g C S c mid now)))"
      unfolding route by (rule send_message_first_row(2)[OF cv s])
    have "s \<in> set (match_player g S)" using s by simp
    then show "\<exists>s \<in> set (match_player g S).
         Edge (fst s) (next_id g) SENT \<in> set (edges (snd (send_message_route g C S c mid now)))"
      unfolding route using send_message_first_row(3)[OF cv s, of c mid now] by blast
    have "cv \<in> set (match_conversation g C)" using cv by simp
    then show "\<exists>cv \<in> set (match_conversation g C).
         Edge (fst cv) (next_id g) CONTAINS
           \<in> set (edges (snd (send_message_route g C S c mid now)))"
      unfolding route using send_message_first_row(4)[OF cv s, of c mid now] by blast
    show "conversations (snd (send_message_route g C S c mid now))
        = map (\<lambda>n. if conversation_id (snd n) = C
                     then (fst n, (snd n)\<lparr>last_message_at := Some now\<rparr>) else n)
            (conversations g)"
      unfolding route using ne by (intro conversations_send_message) simp
  }
qed

theorem send_message_ignores_membership_witness:
  "match_conversation chat ''c1'' \<noteq> [] \<and> match_player chat ''A'' \<noteq> [] \<and>
   \<not> isl (fst (send_message_route chat ''c1'' ''A'' ''hello'' ''m1'' 4)) \<and>
   messages (snd (send_message_route chat ''c1'' ''A'' ''hello'' ''m1'' 4))
     = [(3, \<lparr>message_id = ''m1'', content = ''hello'', timestamp = 4, edited = False,
              edited_at = None\<rparr>)] \<and>
   map (\<lambda>n. last_message_at (snd n))
     (conversations (snd (send_message_route chat ''c1'' ''A'' ''hello'' ''m1'' 4))) = [Some 4] \<and>
   match_conversation chat ''nope'' = [] \<and>
   send_message_route chat ''nope'' ''A'' ''hello'' ''m1'' 4
     = (Inl (HTTPException 400 ''Failed to send message''), chat)"
proof -
  have 1: "match_conversation chat ''c1'' \<noteq> []" by code_simp
  have 2: "match_player chat ''A'' \<noteq> []" by code_simp
  have 3: "match_conversation chat ''nope'' = []" by code_simp
  have 4: "messages (snd (send_message_route chat ''c1'' ''A'' ''hello'' ''m1'' 4))
     = [(3, \<lparr>message_id = ''m1'', content = ''hello'', timestamp = 4, edited = False,
              edited_at = None\<rparr>)]" by code_simp
  have 5: "map (\<lambda>n. last_message_at (snd n))
     (conversations (snd (send_message_route chat ''c1'' ''A'' ''hello'' ''m1'' 4))) = [Some 4]"
    by code_simp
  from send_message_ignores_membership[of chat "''c1''" "''A''" "''hello''" "''m1''" 4]
    send_message_ignores_membership[of chat "''nope''" "''A''" "''hello''" "''m1''" 4]
    1 2 3 4 5
  show ?thesis by simp
qed

text \<open>
  The claim as stated fails: \<open>C\<close> has no \<^verbatim>\<open>MEMBER_OF\<close> edge to the conversation of \<open>A\<close> and
  \<open>B\<close>, and its message is created all the same.
\<close>

theorem send_message_by_non_member:
  "filter (\<lambda>e. is_MEMBER_OF (rel e)) (edges chat_of_two)
     = [Edge 0 3 (MEMBER_OF 3 ''member'' False), Edge 1 3 (MEMBER_OF 3 ''member'' False)] \<and>
   map fst (match_player chat_of_two ''C'') = [2] \<and>
   \<not> isl (fst (send_message_route chat_of_two ''c1'' ''C'' ''hey'' ''m1'' 4)) \<and>
   messages (snd (send_message_route chat_of_two ''c1'' ''C'' ''hey'' ''m1'' 4))
     = [(4, \<lparr>message_id = ''m1'', content = ''hey'', timestamp = 4, edited = False,
              edited_at = None\<rparr>)] \<and>
   edges (snd (send_message_route chat_of_two ''c1'' ''C'' ''hey'' ''m1'' 4))
     = [Edge 0 3 (MEMBER_OF 3 ''member'' False), Edge 1 3 (MEMBER_OF 3 ''member'' False),
        Edge 2 4 SENT, Edge 3 4 CONTAINS]"
  by code_simp

text \<open>
  C6, as the code has it. Neither \<^verbatim>\<open>join_party\<close> nor \<^verbatim>\<open>join_clan\<close> looks at the
  memberships the player has. Each fails, with status 400 and the graph unchanged, exactly
  when no player node or no party (clan) node matches. Otherwise it succeeds: the player is
  then a member of the party (clan) joined, and of every party (clan) it was a member of
  before, so a player can hold several memberships.
\<close>

theorem join_never_conflicts:
  "(match_player g P = [] \<or> match_party g Y = [] \<longrightarrow>
      join_party_route g Y P now = (Inl (HTTPException 400 ''Failed to join party''), g)) \<and>
   (match_player g P \<noteq> [] \<and> match_party g Y \<noteq> [] \<longrightarrow>
      \<not> isl (fst (join_party_route g Y P now)) \<and>
      Y \<in> py_party_id ` set (player_party_records (snd (join_party_route g Y P now)) P) \<and>
      py_party_id ` set (player_party_records g P)
        \<subseteq> py_party_id ` set (player_party_records (snd (join_party_route g Y P now)) P)) \<and>
   (match_player g P = [] \<or> match_clan g C = [] \<longrightarrow>
      join_clan_route g C P now = (Inl (HTTPException 400 ''Failed to join clan''), g)) \<and>
   (match_player g P \<noteq> [] \<and> match_clan g C \<noteq> [] \<longrightarrow>
      \<not> isl (fst (join_clan_route g C P now)) \<and>
      C \<in> pc_clan_id ` set (player_clan_records (snd (join_clan_route g C P now)) P) \<and>
      pc_clan_id ` set (player_clan_records g P)
        \<subseteq> pc_clan_id ` set (player_clan_records (snd (join_clan_route g C P now)) P))"
proof (intro conjI impI)
  let ?gp = "snd (join_party g Y P now)"
  let ?gc = "snd (join_clan g C P now)"
  have mp: "\<And>Q. match_player ?gp Q = match_player g Q" by (rule match_player_cong) simp
  have mc: "\<And>Q. match_player ?gc Q = match_player g Q" by (rule match_player_cong) simp
  have pa: "\<And>i. party_at ?gp i = party_at g i" by (simp add: party_at_def)
  have ca: "\<And>i. clan_at ?gc i = clan_at g i" by (simp add: clan_at_def)
  {
    assume "match_player g P = [] \<or> match_party g Y = []"
    from join_party_no_rows[OF this, of now]
    show "join_party_route g Y P now = (Inl (HTTPException 400 ''Failed to join party''), g)"
      by (simp add: join_party_route_def handle_def)
  }
  {
    assume "match_player g P = [] \<or> match_clan g C = []"
    from join_clan_no_rows[OF this, of now]
    show "join_clan_route g C P now = (Inl (HTTPException 400 ''Failed to join clan''), g)"
      by (simp add: join_clan_route_def handle_def)
  }
  {
    assume "match_player g P \<noteq> [] \<and> match_party g Y \<noteq> []"
    then obtain p y where p: "p \<in> set (match_player g P)" and y: "y \<in> set (match_party g Y)"
      by (meson last_in_set)
    note h = handle_Some[OF join_party_edges(1)[OF p y, of now], of "''Failed to join party''"]
    from h show "\<not> isl (fst (join_party_route g Y P now))"
      by (simp add: join_party_route_def)
    from h have route: "snd (join_party_route g Y P now) = ?gp"
      by (simp add: join_party_route_def)
    from y have ya: "y \<in> set (party_at g (fst y))" and yid: "party_id (snd y) = Y"
      by (simp_all add: party_at_def match_party_def)
    show "Y \<in> py_party_id ` set (player_party_records (snd (join_party_route g Y P now)) P)"
      unfolding route in_player_party_records mp pa
      using p join_party_edges(2)[OF p y, of now] ya yid
      by (intro bexI[of _ p] bexI[of _ "Edge (fst p) (fst y) (IN_PARTY now ''member'')"] conjI
            bexI[of _ y]) simp_all
    show "py_party_id ` set (player_party_records g P)
        \<subseteq> py_party_id ` set (player_party_records (snd (join_party_route g Y P now)) P)"
    proof
      fix X assume "X \<in> py_party_id ` set (player_party_records g P)"
      then obtain q e z where q: "q \<in> set (match_player g P)" and e: "e \<in> set (edges g)"
        and se: "src e = fst q" "is_IN_PARTY (rel e)"
        and z: "z \<in> set (party_at g (dst e))" "party_id (snd z) = X"
        unfolding in_player_party_records by blast
      from se(2) have "\<not> is_INVITED_TO (rel e)" by (cases "rel e") simp_all
      from join_party_edges(3)[OF p y e this, of now] q se z
      show "X \<in> py_party_id ` set (player_party_records (snd (join_party_route g Y P now)) P)"
        unfolding route in_player_party_records mp pa by blast
    qed
  }
  {
    assume "match_player g P \<noteq> [] \<and> match_clan g C \<noteq> []"
    then obtain p c where p: "p \<in> set (match_player g P)" and c: "c \<in> set (match_clan g C)"
      by (meson last_in_set)
    note h = handle_Some[OF join_clan_edges(1)[OF p c, of now], of "''Failed to join clan''"]
    from h show "\<not> isl (fst (join_clan_route g C P now))"
      by (simp add: join_clan_route_def)
    from h have route: "snd (join_clan_route g C P now) = ?gc"
      by (simp add: join_clan_route_def)
    from c have cat: "c \<in> set (clan_at g (fst c))" and cid: "clan_id (snd c) = C"
      by (simp_all add: clan_at_def match_clan_def)
    show "C \<in> pc_clan_id ` set (player_clan_records (snd (join_clan_route g C P now)) P)"
      unfolding route in_player_clan_records mc ca
      using p join_clan_edges(2)[OF p c, of now] cat cid
      by (intro bexI[of _ p]
            bexI[of _ "Edge (fst p) (fst c) (BELONGS_TO now ''member'' (int (member_count g C) + 1))"]
            conjI bexI[of _ c]) simp_all
    show "pc_clan_id ` set (player_clan_records g P)
        \<subseteq> pc_clan_id ` set (player_clan_records (snd (join_clan_route g C P now)) P)"
    proof
      fix X assume "X \<in> pc_clan_id ` set (player_clan_records g P)"
      then obtain q e z where q: "q \<in> set (match_player g P)" and e: "e \<in> set (edges g)"
        and se: "src e = fst q" "is_BELONGS_TO (rel e)"
        and z: "z \<in> set (clan_at g (dst e))" "clan_id (snd z) = X"
        unfolding in_player_clan_records by blast
      from join_clan_edges(3)[OF p c e, of now] q se z
      show "X \<in> pc_clan_id ` set (player_clan_records (snd (join_clan_route g C P now)) P)"
        unfolding route in_player_clan_records mc ca by blast
    qed
  }
qed

theorem join_never_conflicts_witness:
  "match_player two_parties ''A'' \<noteq> [] \<and> match_party two_parties ''p2'' \<noteq> [] \<and>
   map py_party_id (player_party_records two_parties ''A'') = [''p1''] \<and>
   \<not> isl (fst (join_party_route two_parties ''p2'' ''A'' 5)) \<and>
   ''p2'' \<in> py_party_id ` set (player_party_records (snd (join_party_route two_parties ''p2'' ''A'' 5)) ''A'') \<and>
   ''p1'' \<in> py_party_id ` set (player_party_records (snd (join_party_route two_parties ''p2'' ''A'' 5)) ''A'') \<and>
   match_party two_parties ''p9'' = [] \<and>
   join_party_route two_parties ''p9'' ''A'' 5
     = (Inl (HTTPException 400 ''Failed to join party''), two_parties) \<and>
   match_player two_clans ''A'' \<noteq> [] \<and> match_clan two_clans ''c2'' \<noteq> [] \<and>
   map pc_clan_id (player_clan_records two_clans ''A'') = [''c1''] \<and>
   \<not> isl (fst (join_clan_route two_clans ''c2'' ''A'' 5)) \<and>
   ''c2'' \<in> pc_clan_id ` set (player_clan_records (snd (join_clan_route two_clans ''c2'' ''A'' 5)) ''A'') \<and>
   ''c1'' \<in> pc_clan_id ` set (player_clan_records (snd (join_clan_route two_clans ''c2'' ''A'' 5)) ''A'') \<and>
   match_clan two_clans ''c9'' = [] \<and>
   join_clan_route two_clans ''c9'' ''A'' 5
     = (Inl (HTTPException 400 ''Failed to join clan''), two_clans)"
proof -
  have 1: "match_player two_parties ''A'' \<noteq> []" by code_simp
  have 2: "match_party two_parties ''p2'' \<noteq> []" by code_simp
  have 3: "map py_party_id (player_party_records two_parties ''A'') = [''p1'']" by code_simp
  have 4: "match_party two_parties ''p9'' = []" by code_simp
  have 5: "match_player two_clans ''A'' \<noteq> []" by code_simp
  have 6: "match_clan two_clans ''c2'' \<noteq> []" by code_simp
  have 7: "map pc_clan_id (player_clan_records two_clans ''A'') = [''c1'']" by code_simp
  have 8: "match_clan two_clans ''c9'' = []" by code_simp
  from 3 have m3: "''p1'' \<in> py_party_id ` set (player_party_records two_parties ''A'')"
    by (metis list.set_intros(1) set_map)
  from 7 have m7: "''c1'' \<in> pc_clan_id ` set (player_clan_records two_clans ''A'')"
    by (metis list.set_intros(1) set_map)
  note p = join_never_conflicts[of two_parties "''A''" "''p2''" 5 "''c9''"]
  note q = join_never_conflicts[of two_parties "''A''" "''p9''" 5 "''c9''"]
  note c = join_never_conflicts[of two_clans "''A''" "''p9''" 5 "''c2''"]
  note d = join_never_conflicts[of two_clans "''A''" "''p9''" 5 "''c9''"]
  from p 1 2 have pp: "\<not> isl (fst (join_party_route two_parties ''p2'' ''A'' 5)) \<and>
      ''p2'' \<in> py_party_id ` set (player_party_records (snd (join_party_route two_parties ''p2'' ''A'' 5)) ''A'') \<and>
      py_party_id ` set (player_party_records two_parties ''A'')
        \<subseteq> py_party_id ` set (player_party_records (snd (join_party_route two_parties ''p2'' ''A'' 5)) ''A'')"
    by blast
  from q 4 have qq: "join_party_route two_parties ''p9'' ''A'' 5
     = (Inl (HTTPException 400 ''Failed to join party''), two_parties)" by blast
  from c 5 6 have cc: "\<not> isl (fst (join_clan_route two_clans ''c2'' ''A'' 5)) \<and>
      ''c2'' \<in> pc_clan_id ` set (player_clan_records (snd (join_clan_route two_clans ''c2'' ''A'' 5)) ''A'') \<and>
      pc_clan_id ` set (player_clan_records two_clans ''A'')
        \<subseteq> pc_clan_id ` set (player_clan_records (snd (join_clan_route two_clans ''c2'' ''A'' 5)) ''A'')"
    by blast
  from d 8 have dd: "join_clan_route two_clans ''c9'' ''A'' 5
     = (Inl (HTTPException 400 ''Failed to join clan''), two_clans)" by blast
  from pp m3 have p1: "''p1'' \<in> py_party_id ` set (player_party_records (snd (join_party_route two_parties ''p2'' ''A'' 5)) ''A'')"
    by blast
  from cc m7 have c1: "''c1'' \<in> pc_clan_id ` set (player_clan_records (snd (join_clan_route two_clans ''c2'' ''A'' 5)) ''A'')"
    by blast
  from 1 2 3 4 5 6 7 8 pp qq cc dd p1 c1 show ?thesis by blast
qed

text \<open>
  The claim as stated fails: \<open>A\<close> leads party \<open>p1\<close> and owns clan \<open>c1\<close>; joining \<open>p2\<close> and \<open>c2\<close>
  succeeds and leaves \<open>A\<close> with two party and two clan memberships.
\<close>

theorem join_while_member_succeeds:
  "get_player_party two_parties ''A''
     = Some \<lparr>py_party_id = ''p1'', py_game_id = ''game'', py_max_size = 4, py_is_public = False\<rparr> \<and>
   \<not> isl (fst (join_party_route two_parties ''p2'' ''A'' 5)) \<and>
   map py_party_id (player_party_records (snd (join_party_route two_parties ''p2'' ''A'' 5)) ''A'')
     = [''p1'', ''p2''] \<and>
   map pc_clan_id (player_clan_records two_clans ''A'') = [''c1''] \<and>
   \<not> isl (fst (join_clan_route two_clans ''c2'' ''A'' 5)) \<and>
   map pc_clan_id (player_clan_records (snd (join_clan_route two_clans ''c2'' ''A'' 5)) ''A'')
     = [''c1'', ''c2'']"
  by code_simp

text \<open>
  C7, as the code has it. \<^verbatim>\<open>join_clan\<close> gives the new \<^verbatim>\<open>BELONGS_TO\<close> edge the rank
  \<open>member_count + 1\<close>, the number of memberships the clan has at that moment plus one. When
  the clan and the joining players each name one node, a join raises the count by one, so
  two joins in a row receive consecutive ranks. Nothing records the ranks handed out
  before: the rank depends on the current count alone.
\<close>

theorem join_clan_rank:
  assumes "match_player g P = [p]" and "player_at g (fst p) = [p]"
    and "match_player g Q = [q]" and "match_clan g C = [c]"
  shows "edges (snd (join_clan g C P t1)) =
           edges g @ [Edge (fst p) (fst c) (BELONGS_TO t1 ''member'' (int (member_count g C) + 1))] \<and>
         member_count (snd (join_clan g C P t1)) C = member_count g C + 1 \<and>
         edges (snd (join_clan (snd (join_clan g C P t1)) C Q t2)) =
           edges g @ [Edge (fst p) (fst c) (BELONGS_TO t1 ''member'' (int (member_count g C) + 1)),
                      Edge (fst q) (fst c) (BELONGS_TO t2 ''member'' (int (member_count g C) + 2))]"
proof -
  let ?g1 = "snd (join_clan g C P t1)"
  have g1: "?g1 = g\<lparr>edges := edges g @
      [Edge (fst p) (fst c) (BELONGS_TO t1 ''member'' (int (member_count g C) + 1))]\<rparr>"
    by (rule join_clan_single[OF assms(1,4)])
  have 1: "edges ?g1 = edges g @
      [Edge (fst p) (fst c) (BELONGS_TO t1 ''member'' (int (member_count g C) + 1))]"
    unfolding g1 by simp
  have 2: "member_count ?g1 C = member_count g C + 1"
    unfolding g1 using member_count_append[OF assms(4,2)] by simp
  have q1: "match_player ?g1 Q = [q]" and c1: "match_clan ?g1 C = [c]"
    unfolding g1 using assms by simp_all
  have 3: "edges (snd (join_clan ?g1 C Q t2)) = edges g @
      [Edge (fst p) (fst c) (BELONGS_TO t1 ''member'' (int (member_count g C) + 1)),
       Edge (fst q) (fst c) (BELONGS_TO t2 ''member'' (int (member_count g C) + 2))]"
    unfolding join_clan_single[OF q1 c1] 2 using 1 by simp
  from 1 2 3 show ?thesis by blast
qed

theorem join_clan_rank_witness:
  "match_player two_clans ''B'' = [(1, \<lparr>player_id = ''B'', username = ''bob'', status = ''offline'',
                                         player_created_at = 1\<rparr>)] \<and>
   match_clan two_clans ''c1'' = [(2, \<lparr>clan_id = ''c1'', clan_name = ''Alphas'', tag = ''AL'',
                                       description = None, clan_created_at = 2\<rparr>)] \<and>
   member_count two_clans ''c1'' = 1 \<and>
   edges (snd (join_clan two_clans ''c1'' ''B'' 5)) =
     edges two_clans @ [Edge 1 2 (BELONGS_TO 5 ''member'' 2)] \<and>
   member_count (snd (join_clan two_clans ''c1'' ''B'' 5)) ''c1'' = 2 \<and>
   edges (snd (join_clan (snd (join_clan two_clans ''c1'' ''B'' 5)) ''c1'' ''B'' 6)) =
     edges two_clans @ [Edge 1 2 (BELONGS_TO 5 ''member'' 2), Edge 1 2 (BELONGS_TO 6 ''member'' 3)]"
proof -
  let ?b = "(1::nat, \<lparr>player_id = ''B'', username = ''bob'', status = ''offline'',
                       player_created_at = 1::nat\<rparr>)"
  let ?c = "(2::nat, \<lparr>clan_id = ''c1'', clan_name = ''Alphas'', tag = ''AL'',
                       description = None, clan_created_at = 2::nat\<rparr>)"
  have 1: "match_player two_clans ''B'' = [?b]" by code_simp
  have 2: "player_at two_clans (fst ?b) = [?b]" by code_simp
  have 3: "match_clan two_clans ''c1'' = [?c]" by code_simp
  have 4: "member_count two_clans ''c1'' = 1" by code_simp
  from join_clan_rank[OF 1 2 1 3, of 5 6] 1 3 4 show ?thesis by simp
qed

text \<open>
  The claim as stated fails once a member leaves: after \<open>B\<close> (rank 2) has left, \<open>D\<close> joins
  with rank 3, the rank \<open>C\<close> holds in the same clan.
\<close>

theorem rank_reused_after_leave:
  "map pc_rank (player_clan_records clan_history ''C'') = [3] \<and>
   map pc_rank (player_clan_records clan_history ''D'') = [3] \<and>
   map pc_clan_id (player_clan_records clan_history ''C'') = [''c1''] \<and>
   map pc_clan_id (player_clan_records clan_history ''D'') = [''c1''] \<and>
   edges clan_history
     = [Edge 0 4 (BELONGS_TO 4 ''owner'' 1), Edge 2 4 (BELONGS_TO 6 ''member'' 3),
        Edge 3 4 (BELONGS_TO 8 ''member'' 3)]"
  by code_simp

text \<open>
  C5, as the code has it. For a limit \<open>N\<close> with \<open>0 \<le> N < 2\<^sup>6\<^sup>3\<close>,
  \<^verbatim>\<open>get_friend_suggestions(A, N)\<close> returns at most \<open>N\<close> records. None of them is \<open>A\<close>; when
  \<^verbatim>\<open>player_id\<close> is unique in the graph, none is a player that \<^verbatim>\<open>get_friends(A)\<close> lists and
  none a player that \<^verbatim>\<open>get_blocked_players(A)\<close> lists. The records are in non-increasing
  order of \<^verbatim>\<open>mutual_friends\<close>, and \<^verbatim>\<open>mutual_friends\<close> of a record is the number of rows of the
  statement, that is of pairs of \<^verbatim>\<open>FRIENDS_WITH\<close> edges from \<open>A\<close> over a friend, that end in a
  player with the record's three properties. When \<^verbatim>\<open>player_id\<close> is unique and no two
  \<^verbatim>\<open>FRIENDS_WITH\<close> edges join the same ordered pair of nodes, \<^verbatim>\<open>mutual_friends\<close> of every
  record is the number of distinct intermediate friends over which its player is reached,
  so that the records are in non-increasing order of that number.
\<close>

theorem get_friend_suggestions_sound:
  assumes "0 \<le> N" and "N < 2 ^ 63"
  shows "\<exists>rows. get_friend_suggestions g A N = Inr rows \<and> length rows \<le> nat N \<and>
     A \<notin> sg_player_id ` set rows \<and>
     (unique_player_ids g \<longrightarrow>
        sg_player_id ` set rows \<inter> fr_player_id ` set (get_friends g A) = {} \<and>
        sg_player_id ` set rows \<inter> blocked_player_id ` set (get_blocked_players g A) = {}) \<and>
     sorted_wrt (\<lambda>r s. mutual_friends s \<le> mutual_friends r) rows \<and>
     (\<forall>r \<in> set rows. mutual_friends r =
        length (filter (\<lambda>(friend, s). (player_id (snd s), username (snd s), status (snd s))
                          = (sg_player_id r, sg_username r, sg_status r))
                  (suggestion_paths g A))) \<and>
     (unique_player_ids g \<and> no_parallel_friendships g \<longrightarrow>
        (\<forall>r \<in> set rows. mutual_friends r
            = distinct_intermediate_friends g A (sg_player_id r)) \<and>
        sorted_wrt (\<lambda>r s. distinct_intermediate_friends g A (sg_player_id s)
                          \<le> distinct_intermediate_friends g A (sg_player_id r)) rows)"
proof -
  define h :: "(node_id \<times> player) \<times> (node_id \<times> player) \<Rightarrow> string \<times> string \<times> string"
    where "h = (\<lambda>(friend, suggestion).
                      (player_id (snd suggestion), username (snd suggestion),
                       status (snd suggestion)))"
  obtain keys where keys: "keys = map h (suggestion_paths g A)"
    and res: "get_friend_suggestions g A N =
      Inr (take (nat N) (sort_key (\<lambda>r. - int (mutual_friends r))
        (map (\<lambda>k. \<lparr>sg_player_id = fst k, sg_username = fst (snd k), sg_status = snd (snd k),
                      mutual_friends = count_list keys k\<rparr>) (remdups keys))))"
    unfolding h_def by (rule suggestions_result[OF assms, where g = g and A = A])
  define records where "records = map (\<lambda>k. \<lparr>sg_player_id = fst k, sg_username = fst (snd k),
      sg_status = snd (snd k), mutual_friends = count_list keys k\<rparr>) (remdups keys)"
  define rows where "rows = take (nat N) (sort_key (\<lambda>r. - int (mutual_friends r)) records)"
  have res': "get_friend_suggestions g A N = Inr rows"
    unfolding rows_def records_def by (rule res)
  have len: "length rows \<le> nat N" unfolding rows_def by simp
  have sub: "set rows \<subseteq> set records"
    unfolding rows_def using set_take_subset[of "nat N" "sort_key (\<lambda>r. - int (mutual_friends r)) records"]
    by simp
  have path: "\<exists>friend s. (friend, s) \<in> set (suggestion_paths g A) \<and>
        sg_player_id r = player_id (snd s) \<and>
        mutual_friends r = count_list keys (sg_player_id r, sg_username r, sg_status r)"
    if "r \<in> set rows" for r
  proof -
    from that sub have "r \<in> set records" by blast
    then obtain k where k: "k \<in> set keys" and r: "r = \<lparr>sg_player_id = fst k,
        sg_username = fst (snd k), sg_status = snd (snd k), mutual_friends = count_list keys k\<rparr>"
      unfolding records_def by auto
    from k obtain x where x: "x \<in> set (suggestion_paths g A)" and kx: "k = h x"
      unfolding keys by auto
    obtain friend s where fs: "x = (friend, s)" by (cases x)
    from r kx fs have "sg_player_id r = player_id (snd s)" by (simp add: h_def)
    moreover from r have "mutual_friends r = count_list keys (sg_player_id r, sg_username r, sg_status r)"
      by simp
    ultimately show ?thesis using x fs by blast
  qed
  have not_self: "A \<notin> sg_player_id ` set rows"
  proof
    assume "A \<in> sg_player_id ` set rows"
    then obtain r where r: "r \<in> set rows" "sg_player_id r = A" by auto
    from path[OF r(1)] r(2) in_suggestion_paths(2) show False by metis
  qed
  have excl: "sg_player_id ` set rows \<inter> fr_player_id ` set (get_friends g A) = {} \<and>
        sg_player_id ` set rows \<inter> blocked_player_id ` set (get_blocked_players g A) = {}"
    if u: "unique_player_ids g"
  proof -
    have no: "\<not> (\<exists>p \<in> set (match_player g A). \<exists>e \<in> set (edges g).
        src e = fst p \<and> (is_FRIENDS_WITH (rel e) \<or> is_BLOCKED (rel e)) \<and>
        (\<exists>n \<in> set (player_at g (dst e)). player_id (snd n) = sg_player_id r))"
      if r: "r \<in> set rows" for r
    proof
      assume "\<exists>p \<in> set (match_player g A). \<exists>e \<in> set (edges g).
        src e = fst p \<and> (is_FRIENDS_WITH (rel e) \<or> is_BLOCKED (rel e)) \<and>
        (\<exists>n \<in> set (player_at g (dst e)). player_id (snd n) = sg_player_id r)"
      then obtain p e n where p: "p \<in> set (match_player g A)" and e: "e \<in> set (edges g)"
        and se: "src e = fst p" and ty: "is_FRIENDS_WITH (rel e) \<or> is_BLOCKED (rel e)"
        and n: "n \<in> set (player_at g (dst e))" and nid: "player_id (snd n) = sg_player_id r"
        by blast
      from path[OF r] obtain friend s where fs: "(friend, s) \<in> set (suggestion_paths g A)"
        and sid: "sg_player_id r = player_id (snd s)" by blast
      from in_suggestion_paths(3)[OF fs] obtain q where q: "q \<in> set (match_player g A)"
        and nf: "\<not> has_edge g (fst q) is_FRIENDS_WITH (fst s)"
        and nb: "\<not> has_edge g (fst q) is_BLOCKED (fst s)" by blast
      from p q have "p = q"
        by (intro player_unique[OF u]) (simp_all add: match_player_iff)
      moreover from n in_suggestion_paths(1)[OF fs] nid sid have "n = s"
        by (intro player_unique[OF u]) (simp_all add: player_at_iff)
      moreover from n have "dst e = fst n" by (simp add: player_at_iff)
      ultimately have "has_edge g (fst q) is_FRIENDS_WITH (fst s) \<or> has_edge g (fst q) is_BLOCKED (fst s)"
        using e se ty unfolding has_edge_def by auto
      with nf nb show False by blast
    qed
    have "sg_player_id ` set rows \<inter> fr_player_id ` set (get_friends g A) = {}"
    proof (rule ccontr)
      assume "sg_player_id ` set rows \<inter> fr_player_id ` set (get_friends g A) \<noteq> {}"
      then obtain r where r: "r \<in> set rows"
        and "sg_player_id r \<in> fr_player_id ` set (get_friends g A)" by auto
      then show False using no[OF r] unfolding in_get_friends by blast
    qed
    moreover have "sg_player_id ` set rows \<inter> blocked_player_id ` set (get_blocked_players g A) = {}"
    proof (rule ccontr)
      assume "sg_player_id ` set rows \<inter> blocked_player_id ` set (get_blocked_players g A) \<noteq> {}"
      then obtain r where r: "r \<in> set rows"
        and "sg_player_id r \<in> blocked_player_id ` set (get_blocked_players g A)" by auto
      then show False using no[OF r] unfolding in_get_blocked_players by blast
    qed
    ultimately show ?thesis ..
  qed
  have "sorted (map (\<lambda>r. - int (mutual_friends r))
          (sort_key (\<lambda>r. - int (mutual_friends r)) records))"
    by (rule sorted_sort_key)
  then have "sorted_wrt (\<lambda>r s. mutual_friends s \<le> mutual_friends r)
          (sort_key (\<lambda>r. - int (mutual_friends r)) records)"
    by (simp add: sorted_map)
  then have sorted: "sorted_wrt (\<lambda>r s. mutual_friends s \<le> mutual_friends r) rows"
    unfolding rows_def by (rule sorted_wrt_take)
  have count: "mutual_friends r =
        length (filter (\<lambda>(friend, s). (player_id (snd s), username (snd s), status (snd s))
                          = (sg_player_id r, sg_username r, sg_status r))
                  (suggestion_paths g A))" if "r \<in> set rows" for r
  proof -
    from path[OF that] have "mutual_friends r
        = count_list keys (sg_player_id r, sg_username r, sg_status r)" by blast
    also have "\<dots> = length (filter (\<lambda>x. h x = (sg_player_id r, sg_username r, sg_status r))
                  (suggestion_paths g A))"
      unfolding keys by (rule count_list_map_key)
    also have "(\<lambda>x. h x = (sg_player_id r, sg_username r, sg_status r))
        = (\<lambda>(friend, s). (player_id (snd s), username (snd s), status (snd s))
                          = (sg_player_id r, sg_username r, sg_status r))"
      unfolding h_def by auto
    finally show ?thesis .
  qed
  have dif: "mutual_friends r = distinct_intermediate_friends g A (sg_player_id r)"
    if u: "unique_player_ids g" and np: "no_parallel_friendships g" and r: "r \<in> set rows"
    for r
  proof -
    from r sub have "r \<in> set records" by blast
    then obtain k where k: "k \<in> set keys" and rk: "r = \<lparr>sg_player_id = fst k,
        sg_username = fst (snd k), sg_status = snd (snd k), mutual_friends = count_list keys k\<rparr>"
      unfolding records_def by auto
    from k obtain x where x: "x \<in> set (suggestion_paths g A)" and kx: "k = h x"
      unfolding keys by auto
    obtain friend s where fs: "x = (friend, s)" by (cases x)
    from rk kx fs have key: "sg_player_id r = player_id (snd s)"
      "sg_username r = username (snd s)" "sg_status r = status (snd s)"
      by (simp_all add: h_def)
    from x fs have p: "(friend, s) \<in> set (suggestion_paths g A)" by simp
    from count[OF r] have "mutual_friends r =
        length (filter (\<lambda>(f, t). (player_id (snd t), username (snd t), status (snd t))
                          = (player_id (snd s), username (snd s), status (snd s)))
                  (suggestion_paths g A))"
      unfolding key .
    also have "\<dots> = distinct_intermediate_friends g A (player_id (snd s))"
      by (rule count_paths_distinct_friends[OF u np p])
    finally show ?thesis unfolding key .
  qed
  have sorted_dif: "sorted_wrt (\<lambda>r s. distinct_intermediate_friends g A (sg_player_id s)
                          \<le> distinct_intermediate_friends g A (sg_player_id r)) rows"
    if u: "unique_player_ids g" and np: "no_parallel_friendships g"
    using sorted by (rule sorted_wrt_mono_rel[rotated]) (simp add: dif[OF u np])
  have friends: "unique_player_ids g \<and> no_parallel_friendships g \<longrightarrow>
        (\<forall>r \<in> set rows. mutual_friends r
            = distinct_intermediate_friends g A (sg_player_id r)) \<and>
        sorted_wrt (\<lambda>r s. distinct_intermediate_friends g A (sg_player_id s)
                          \<le> distinct_intermediate_friends g A (sg_player_id r)) rows"
    using dif sorted_dif by blast
  from res' len not_self excl sorted count friends show ?thesis by blast
qed

theorem get_friend_suggestions_sound_witness:
  "(0::int) \<le> 10 \<and> (10::int) < 2 ^ 63 \<and>
   unique_player_ids friend_circle \<and> no_parallel_friendships friend_circle \<and>
   map fr_player_id (get_friends friend_circle ''A'') = [''B'', ''C''] \<and>
   get_friend_suggestions friend_circle ''A'' 10
     = Inr [\<lparr>sg_player_id = ''D'', sg_username = ''dave'', sg_status = ''online'',
              mutual_friends = 2\<rparr>,
            \<lparr>sg_player_id = ''E'', sg_username = ''erin'', sg_status = ''online'',
              mutual_friends = 1\<rparr>] \<and>
   (\<exists>rows. get_friend_suggestions friend_circle ''A'' 10 = Inr rows \<and>
      ''A'' \<notin> sg_player_id ` set rows \<and>
      sg_player_id ` set rows \<inter> fr_player_id ` set (get_friends friend_circle ''A'') = {} \<and>
      sorted_wrt (\<lambda>r s. mutual_friends s \<le> mutual_friends r) rows \<and>
      sorted_wrt (\<lambda>r s. distinct_intermediate_friends friend_circle ''A'' (sg_player_id s)
                        \<le> distinct_intermediate_friends friend_circle ''A'' (sg_player_id r))
        rows) \<and>
   distinct_intermediate_friends friend_circle ''A'' ''D'' = 2 \<and>
   distinct_intermediate_friends friend_circle ''A'' ''E'' = 1"
proof -
  have n: "(0::int) \<le> 10" by simp
  have m: "(10::int) < 2 ^ 63" by simp
  have u: "unique_player_ids friend_circle" by code_simp
  have np: "no_parallel_friendships friend_circle" by code_simp
  have f: "map fr_player_id (get_friends friend_circle ''A'') = [''B'', ''C'']" by code_simp
  have r: "get_friend_suggestions friend_circle ''A'' 10
     = Inr [\<lparr>sg_player_id = ''D'', sg_username = ''dave'', sg_status = ''online'',
              mutual_friends = 2\<rparr>,
            \<lparr>sg_player_id = ''E'', sg_username = ''erin'', sg_status = ''online'',
              mutual_friends = 1\<rparr>]" by code_simp
  from get_friend_suggestions_sound[OF n m, of friend_circle "''A''"] u np
  obtain rows where rows: "get_friend_suggestions friend_circle ''A'' 10 = Inr rows"
    and self: "''A'' \<notin> sg_player_id ` set rows"
    and fr: "sg_player_id ` set rows \<inter> fr_player_id ` set (get_friends friend_circle ''A'') = {}"
    and so: "sorted_wrt (\<lambda>r s. mutual_friends s \<le> mutual_friends r) rows"
    and eq: "\<forall>r \<in> set rows. mutual_friends r
            = distinct_intermediate_friends friend_circle ''A'' (sg_player_id r)"
    and sd: "sorted_wrt (\<lambda>r s. distinct_intermediate_friends friend_circle ''A'' (sg_player_id s)
                        \<le> distinct_intermediate_friends friend_circle ''A'' (sg_player_id r))
        rows"
    by blast
  from rows r have "rows = [\<lparr>sg_player_id = ''D'', sg_username = ''dave'', sg_status = ''online'',
              mutual_friends = 2\<rparr>,
            \<lparr>sg_player_id = ''E'', sg_username = ''erin'', sg_status = ''online'',
              mutual_friends = 1\<rparr>]" by simp
  with eq have d: "distinct_intermediate_friends friend_circle ''A'' ''D'' = 2"
    and e: "distinct_intermediate_friends friend_circle ''A'' ''E'' = 1" by simp_all
  from rows self fr so sd
  have ex: "\<exists>rows. get_friend_suggestions friend_circle ''A'' 10 = Inr rows \<and>
      ''A'' \<notin> sg_player_id ` set rows \<and>
      sg_player_id ` set rows \<inter> fr_player_id ` set (get_friends friend_circle ''A'') = {} \<and>
      sorted_wrt (\<lambda>r s. mutual_friends s \<le> mutual_friends r) rows \<and>
      sorted_wrt (\<lambda>r s. distinct_intermediate_friends friend_circle ''A'' (sg_player_id s)
                        \<le> distinct_intermediate_friends friend_circle ''A'' (sg_player_id r))
        rows" by blast
  from n m u np f r ex d e show ?thesis by blast
qed

text \<open>
  The claim as stated fails twice. \<open>C\<close> has blocked \<open>A\<close> and is suggested to \<open>A\<close>. And where
  friendships are duplicated, \<open>E\<close> (reached over one friend, along four pairs of edges) is
  listed before \<open>F\<close> (reached over two friends, along two pairs), so the order is not that
  of the number of distinct intermediate friends.
\<close>

theorem suggestions_blocker_and_path_count:
  "map blocked_player_id (get_blocked_players blocked_by_candidate ''C'') = [''A''] \<and>
   get_friend_suggestions blocked_by_candidate ''A'' 10
     = Inr [\<lparr>sg_player_id = ''C'', sg_username = ''carol'', sg_status = ''away'',
              mutual_friends = 1\<rparr>] \<and>
   get_friend_suggestions duplicated_paths ''A'' 10
     = Inr [\<lparr>sg_player_id = ''E'', sg_username = ''erin'', sg_status = ''online'',
              mutual_friends = 4\<rparr>,
            \<lparr>sg_player_id = ''F'', sg_username = ''fay'', sg_status = ''online'',
              mutual_friends = 2\<rparr>] \<and>
   distinct_intermediate_friends duplicated_paths ''A'' ''E'' = 1 \<and>
   distinct_intermediate_friends duplicated_paths ''A'' ''F'' = 2"
  by code_simp

end
